theory Spec2Isabelle
  imports Complex_Main "HOL-Library.AList"
begin

section \<open>JavaScript values as the dashboard script sees them\<close>

text \<open>
  The dashboard script (\<^verbatim>\<open>src/unnamed/part_003\<close>; \<^verbatim>\<open>part_000\<close> is the same code with
  its comments) reads everything it computes on from \<^verbatim>\<open>JSON.parse\<close> of a cached
  server reply, so its data are JSON values: dynamically typed, and coerced by the
  language wherever the script calls \<^verbatim>\<open>parseInt\<close>, \<^verbatim>\<open>hasOwnProperty\<close> or a
  truthiness test.

  A number is the exact number that the double denotes (a rational, or one of the three
  special values); the script never adds or multiplies two of them, and where
  \<^verbatim>\<open>parseInt\<close> produces one, \<open>to_number\<close> below rounds it to a double.
  \<^verbatim>\<open>-0\<close> is identified with \<^verbatim>\<open>0\<close> (the script only compares, floors and tests
  numbers for truthiness, which do not tell them apart). Strings are sequences of
  8-bit code units (the Latin-1 range of JavaScript's UTF-16 units). An object is the
  list of its own properties in order; \<^verbatim>\<open>map_of\<close> looks a property up.
\<close>

datatype js_error = TypeError | JsError string

datatype jsnum = NaN | PosInfinity | NegInfinity | Fin rat

datatype jsval =
    JUndefined
  | JNull
  | JBool bool
  | JNum jsnum
  | JStr string
  | JArr "jsval list"
  | JObj "(string \<times> jsval) list"

text \<open>Truthiness, as \<^verbatim>\<open>if (x)\<close>, \<^verbatim>\<open>!x\<close> and \<^verbatim>\<open>x || y\<close> test it.\<close>

fun truthy :: "jsval \<Rightarrow> bool" where
  "truthy JUndefined = False"
| "truthy JNull = False"
| "truthy (JBool b) = b"
| "truthy (JNum NaN) = False"
| "truthy (JNum (Fin q)) = (q \<noteq> 0)"
| "truthy (JNum PosInfinity) = True"
| "truthy (JNum NegInfinity) = True"
| "truthy (JStr s) = (s \<noteq> [])"
| "truthy (JArr xs) = True"
| "truthy (JObj fs) = True"

text \<open>
  Member access \<^verbatim>\<open>v.name\<close>, for the names the script reads (\<^verbatim>\<open>year\<close>,
  \<^verbatim>\<open>month\<close>, \<^verbatim>\<open>colleges\<close>, \<^verbatim>\<open>publications\<close>, \<^verbatim>\<open>dashboard_stats\<close>,
  \<^verbatim>\<open>error\<close>): none of them is a property of a built-in prototype, so the read gives
  the own property or \<^verbatim>\<open>undefined\<close>, and raises a TypeError on \<^verbatim>\<open>null\<close> and
  \<^verbatim>\<open>undefined\<close>.
\<close>

fun get_prop :: "jsval \<Rightarrow> string \<Rightarrow> js_error + jsval" where
  "get_prop JUndefined k = Inl TypeError"
| "get_prop JNull k = Inl TypeError"
| "get_prop (JObj fs) k = Inr (case map_of fs k of None \<Rightarrow> JUndefined | Some v \<Rightarrow> v)"
| "get_prop v k = Inr JUndefined"

subsection \<open>Conversion to string\<close>

definition digit_char :: "nat \<Rightarrow> char" where
  "digit_char d = ''0123456789'' ! d"

fun nat_digits :: "nat \<Rightarrow> string" where
  "nat_digits n =
     (if n < 10 then [digit_char n] else nat_digits (n div 10) @ [digit_char (n mod 10)])"

declare nat_digits.simps [simp del]

definition int_to_string :: "int \<Rightarrow> string" where
  "int_to_string i =
     (if i < 0 then CHR ''-'' # nat_digits (nat (- i)) else nat_digits (nat i))"

text \<open>
  \<^verbatim>\<open>Number::toString\<close>. An integral value below \<^verbatim>\<open>2^53\<close> in magnitude prints as its
  decimal digits. Every other finite value (a fraction, or a magnitude from
  \<^verbatim>\<open>2^53\<close> on, which prints the shortest digits that read back as the same double,
  in exponent form from \<^verbatim>\<open>1e21\<close> on) is printed by the engine's
  shortest-round-trip algorithm over doubles; that algorithm is the parameter
  \<open>ns\<close> of everything that may print a number.
\<close>

fun num_to_string :: "(rat \<Rightarrow> string) \<Rightarrow> jsnum \<Rightarrow> string" where
  "num_to_string ns NaN = ''NaN''"
| "num_to_string ns PosInfinity = ''Infinity''"
| "num_to_string ns NegInfinity = ''-Infinity''"
| "num_to_string ns (Fin q) =
     (if q = of_int \<lfloor>q\<rfloor> \<and> \<bar>q\<bar> < 2 ^ 53 then int_to_string \<lfloor>q\<rfloor> else ns q)"

text \<open>
  The abstract operation \<^verbatim>\<open>ToString\<close>. An array prints as its elements joined by
  commas, \<^verbatim>\<open>null\<close> and \<^verbatim>\<open>undefined\<close> elements as the empty string. A plain object
  prints as \<^verbatim>\<open>[object Object]\<close> through \<^verbatim>\<open>Object.prototype.toString\<close>, unless it has
  an own property \<^verbatim>\<open>toString\<close>: a JSON value is never callable, so the conversion
  then finds no method that returns a primitive and raises a TypeError.
\<close>

fun to_string :: "(rat \<Rightarrow> string) \<Rightarrow> jsval \<Rightarrow> js_error + string"
  and join_elements :: "(rat \<Rightarrow> string) \<Rightarrow> jsval list \<Rightarrow> js_error + string"
where
  "to_string ns JUndefined = Inr ''undefined''"
| "to_string ns JNull = Inr ''null''"
| "to_string ns (JBool b) = Inr (if b then ''true'' else ''false'')"
| "to_string ns (JNum n) = Inr (num_to_string ns n)"
| "to_string ns (JStr s) = Inr s"
| "to_string ns (JArr xs) = join_elements ns xs"
| "to_string ns (JObj fs) =
     (if ''toString'' \<in> fst ` set fs then Inl TypeError else Inr ''[object Object]'')"
| "join_elements ns [] = Inr []"
| "join_elements ns (x # xs) =
     (case (if x = JNull \<or> x = JUndefined then Inr [] else to_string ns x) of
        Inl e \<Rightarrow> Inl e
      | Inr s \<Rightarrow>
          if xs = [] then Inr s
          else (case join_elements ns xs of
                  Inl e \<Rightarrow> Inl e
                | Inr t \<Rightarrow> Inr (s @ CHR '','' # t)))"

subsection \<open>Strings: trim, split, parseInt\<close>

text \<open>The white space and line terminators of JavaScript that fit in eight bits.\<close>

definition is_ws :: "char \<Rightarrow> bool" where
  "is_ws c = (of_char c \<in> {9, 10, 11, 12, 13, 32, 160 :: nat})"

definition trim :: "string \<Rightarrow> string" where
  "trim s = rev (dropWhile is_ws (rev (dropWhile is_ws s)))"

text \<open>\<^verbatim>\<open>s.split('/')[0]\<close>: the text before the first slash, all of it when there is none.\<close>

definition split_slash_first :: "string \<Rightarrow> string" where
  "split_slash_first s = takeWhile (\<lambda>c. c \<noteq> CHR ''/'') s"

text \<open>The value of a character as a digit; 36 when it is none in any radix.\<close>

definition digit_val :: "char \<Rightarrow> nat" where
  "digit_val c =
     (let n = of_char c :: nat in
      if 48 \<le> n \<and> n \<le> 57 then n - 48
      else if 97 \<le> n \<and> n \<le> 122 then n - 87
      else if 65 \<le> n \<and> n \<le> 90 then n - 55
      else 36)"

text \<open>
  \<^verbatim>\<open>parseInt(string, radix)\<close> on a string, radix 0 standing for an omitted radix:
  leading white space is skipped, a sign is read, a \<^verbatim>\<open>0x\<close> prefix switches to radix
  16 when the radix is omitted or 16, and the longest prefix of digits is the value.
  \<open>None\<close> is \<^verbatim>\<open>NaN\<close>. The result here is the integer that is read (the
  specification of the language calls it \<^verbatim>\<open>mathInt\<close>, with its sign);
  \<open>to_number\<close> below turns it into the Number value that the call returns.
\<close>

definition parseInt :: "string \<Rightarrow> nat \<Rightarrow> int option" where
  "parseInt inputString radix =
     (let S = dropWhile is_ws inputString;
          neg = (S \<noteq> [] \<and> hd S = CHR ''-'');
          S1 = (if S \<noteq> [] \<and> (hd S = CHR ''+'' \<or> hd S = CHR ''-'') then tl S else S)
      in if radix \<noteq> 0 \<and> (radix < 2 \<or> 36 < radix) then None
         else
           let hex = ((radix = 0 \<or> radix = 16) \<and> (take 2 S1 = ''0x'' \<or> take 2 S1 = ''0X''));
               S2 = (if hex then drop 2 S1 else S1);
               R = (if hex then 16 else if radix = 0 then 10 else radix);
               Z = takeWhile (\<lambda>c. digit_val c < R) S2
           in if Z = [] then None
              else Some ((if neg then - 1 else 1) *
                         int (foldl (\<lambda>a c. a * R + digit_val c) 0 Z)))"

text \<open>
  The Number value of an integer: the nearest double, ties to the even significand, and
  an infinity from \<^verbatim>\<open>2^1024 - 2^970\<close> on. Integers below \<^verbatim>\<open>2^53\<close> in magnitude are
  doubles themselves. Where the script only compares the value that \<^verbatim>\<open>parseInt\<close>
  returns with small integers (the version marker with 2, a month with 1 to 12) or
  subtracts it from the clock, which is below \<^verbatim>\<open>2^53\<close>, the rounding changes no
  outcome and the integer is used as it is; where the value itself is kept (a year) it
  is converted.
\<close>

fun bitlen :: "nat \<Rightarrow> nat" where
  "bitlen n = (if n = 0 then 0 else Suc (bitlen (n div 2)))"

declare bitlen.simps [simp del]

definition round_nat :: "nat \<Rightarrow> nat" where
  "round_nat n =
     (if n < 2 ^ 53 then n
      else
        (let e = bitlen n - 53;
             q = n div 2 ^ e;
             r = n mod 2 ^ e;
             h = 2 ^ (e - 1)
         in (if h < r \<or> (r = h \<and> odd q) then q + 1 else q) * 2 ^ e))"

definition to_number :: "int \<Rightarrow> jsnum" where
  "to_number i =
     (let m = round_nat (nat \<bar>i\<bar>)
      in if 2 ^ 1024 \<le> m then (if i < 0 then NegInfinity else PosInfinity)
         else Fin (of_int (if i < 0 then - int m else int m)))"

text \<open>\<^verbatim>\<open>parseInt\<close> on any value: the value is converted to a string first.\<close>

definition parseInt_js :: "(rat \<Rightarrow> string) \<Rightarrow> jsval \<Rightarrow> nat \<Rightarrow> js_error + int option" where
  "parseInt_js ns v radix =
     (case to_string ns v of Inl e \<Rightarrow> Inl e | Inr s \<Rightarrow> Inr (parseInt s radix))"

section \<open>The cache store\<close>

text \<open>
  \<^verbatim>\<open>localStorage\<close>: a map from keys to strings; \<^verbatim>\<open>getItem\<close> of a missing key is
  \<^verbatim>\<open>null\<close>. The store is taken to accept every write.
\<close>

type_synonym storage = "string \<rightharpoonup> string"

definition CACHE_KEY :: string where
  "CACHE_KEY = ''bsu_research_data''"

definition CACHE_TIMESTAMP_KEY :: string where
  "CACHE_TIMESTAMP_KEY = ''bsu_research_data_timestamp''"

definition CACHE_VERSION_KEY :: string where
  "CACHE_VERSION_KEY = ''bsu_research_cache_version''"

definition CACHE_VERSION :: int where
  "CACHE_VERSION = 2"

definition CACHE_DURATION :: int where
  "CACHE_DURATION = 24 * 60 * 60 * 1000"

text \<open>
  \<^verbatim>\<open>isCacheValid\<close>, with the clock reading \<^verbatim>\<open>Date.now()\<close> as \<open>now\<close>. \<^verbatim>\<open>parseInt\<close>
  of a missing version reads the text \<^verbatim>\<open>null\<close>; a timestamp that parses to
  \<^verbatim>\<open>NaN\<close> makes the age \<^verbatim>\<open>NaN\<close>, and the comparison false.
\<close>

definition isCacheValid :: "storage \<Rightarrow> int \<Rightarrow> bool" where
  "isCacheValid st now =
     (let version = parseInt (case st CACHE_VERSION_KEY of None \<Rightarrow> ''null'' | Some s \<Rightarrow> s) 10
      in if version \<noteq> Some CACHE_VERSION then False
         else
           (case st CACHE_TIMESTAMP_KEY of
              None \<Rightarrow> False
            | Some timestamp \<Rightarrow>
                if timestamp = [] then False
                else (case parseInt timestamp 0 of
                        None \<Rightarrow> False
                      | Some t \<Rightarrow> now - t < CACHE_DURATION)))"

section \<open>Year normalisation and the year filter\<close>

text \<open>\<^verbatim>\<open>Math.floor\<close>; the special values are their own floor.\<close>

fun floor_num :: "jsnum \<Rightarrow> jsnum" where
  "floor_num (Fin q) = Fin (of_int \<lfloor>q\<rfloor>)"
| "floor_num n = n"

definition int_val :: "int \<Rightarrow> jsval" where
  "int_val i = JNum (Fin (of_int i))"

text \<open>\<^verbatim>\<open>a || b\<close> on two results of \<^verbatim>\<open>parseInt\<close>: \<^verbatim>\<open>NaN\<close> and \<^verbatim>\<open>0\<close> are falsy.\<close>

definition or_parse :: "int option \<Rightarrow> int option \<Rightarrow> int option" where
  "or_parse a b = (case a of None \<Rightarrow> b | Some y \<Rightarrow> if y = 0 then b else Some y)"

text \<open>\<^verbatim>\<open>isNaN(y) ? null : y\<close>, on what \<^verbatim>\<open>parseInt\<close> has read.\<close>

definition nan_to_null :: "int option \<Rightarrow> jsval" where
  "nan_to_null y = (case y of None \<Rightarrow> JNull | Some n \<Rightarrow> JNum (to_number n))"

text \<open>
  The body of \<^verbatim>\<open>getPubYear\<close> on the value of \<^verbatim>\<open>pub.year\<close> (the specification's
  \<^verbatim>\<open>normalizeYear\<close>), and \<^verbatim>\<open>getPubYear\<close> itself. \<^verbatim>\<open>pubYear == null\<close> holds of
  \<^verbatim>\<open>null\<close> and \<^verbatim>\<open>undefined\<close>.
\<close>

definition normalizeYear :: "(rat \<Rightarrow> string) \<Rightarrow> jsval \<Rightarrow> js_error + jsval" where
  "normalizeYear ns pubYear =
     (let coerced = (case parseInt_js ns pubYear 10 of
                       Inl e \<Rightarrow> Inl e
                     | Inr y \<Rightarrow> Inr (nan_to_null y))
      in if pubYear = JNull \<or> pubYear = JUndefined \<or> pubYear = JStr [] then Inr JNull
         else
           (case pubYear of
              JNum n \<Rightarrow> if n \<noteq> NaN then Inr (JNum (floor_num n)) else coerced
            | JStr s \<Rightarrow>
                Inr (nan_to_null
                      (or_parse (parseInt (trim (split_slash_first s)) 10)
                                (parseInt (trim s) 10)))
            | _ \<Rightarrow> coerced))"

definition getPubYear :: "(rat \<Rightarrow> string) \<Rightarrow> jsval \<Rightarrow> js_error + jsval" where
  "getPubYear ns pub =
     (case get_prop pub ''year'' of Inl e \<Rightarrow> Inl e | Inr pubYear \<Rightarrow> normalizeYear ns pubYear)"

text \<open>
  \<^verbatim>\<open>allPublications.filter(pub => ...)\<close>: the records are visited in order and the
  first exception of the callback ends the call. \<open>filterYear\<close> is the Number that
  \<^verbatim>\<open>parseInt(year, 10)\<close> returned.
\<close>

fun filterByYear :: "(rat \<Rightarrow> string) \<Rightarrow> jsnum \<Rightarrow> jsval list \<Rightarrow> js_error + jsval list" where
  "filterByYear ns filterYear [] = Inr []"
| "filterByYear ns filterYear (pub # pubs) =
     (case getPubYear ns pub of
        Inl e \<Rightarrow> Inl e
      | Inr yearValue \<Rightarrow>
          (case filterByYear ns filterYear pubs of
             Inl e \<Rightarrow> Inl e
           | Inr rest \<Rightarrow>
               Inr (if yearValue \<noteq> JNull \<and> yearValue = JNum filterYear
                    then pub # rest else rest)))"

text \<open>The filter for a filter year that is an integer.\<close>

definition filterPublications :: "(rat \<Rightarrow> string) \<Rightarrow> int \<Rightarrow> jsval list \<Rightarrow> js_error + jsval list" where
  "filterPublications ns filterYear pubs = filterByYear ns (Fin (of_int filterYear)) pubs"

section \<open>Quarterly aggregation\<close>

text \<open>What the script does to the page, the network and the console, in order.\<close>

datatype event =
    ShowLoadingState
  | HideLoadingState
  | ShowErrorState
  | FetchAllData
  | ConsoleLog string
  | ConsoleWarn string
  | ConsoleError string
  | UpdateDashboard jsval

text \<open>
  The variables the month loop updates: the four counters of \<^verbatim>\<open>quarterly_counts\<close>,
  \<^verbatim>\<open>publicationsWithoutMonth\<close>, \<^verbatim>\<open>publicationsCountedInTotal\<close>, and the console.
  Counters are natural numbers (they stay far below \<^verbatim>\<open>2^53\<close>).
\<close>

record qstate =
  q1 :: nat
  q2 :: nat
  q3 :: nat
  q4 :: nat
  publicationsWithoutMonth :: nat
  publicationsCountedInTotal :: nat
  console :: "event list"

definition qstate0 :: qstate where
  "qstate0 = \<lparr>q1 = 0, q2 = 0, q3 = 0, q4 = 0, publicationsWithoutMonth = 0,
              publicationsCountedInTotal = 0, console = []\<rparr>"

text \<open>\<^verbatim>\<open>currentQuarter\<close> from \<^verbatim>\<open>currentMonth = getMonth() + 1\<close>; it starts as 1.\<close>

definition currentQuarter_of :: "int \<Rightarrow> nat" where
  "currentQuarter_of currentMonth =
     (if 1 \<le> currentMonth \<and> currentMonth \<le> 3 then 1
      else if 4 \<le> currentMonth \<and> currentMonth \<le> 6 then 2
      else if 7 \<le> currentMonth \<and> currentMonth \<le> 9 then 3
      else if 10 \<le> currentMonth \<and> currentMonth \<le> 12 then 4
      else 1)"

text \<open>\<^verbatim>\<open>pubQuarter\<close> from \<^verbatim>\<open>monthInt\<close>; it starts as 0.\<close>

definition pubQuarter_of :: "int \<Rightarrow> nat" where
  "pubQuarter_of monthInt =
     (if 1 \<le> monthInt \<and> monthInt \<le> 3 then 1
      else if 4 \<le> monthInt \<and> monthInt \<le> 6 then 2
      else if 7 \<le> monthInt \<and> monthInt \<le> 9 then 3
      else if 10 \<le> monthInt \<and> monthInt \<le> 12 then 4
      else 0)"

text \<open>The three branches that count a record as having no month, and warn.\<close>

definition without_month :: "bool \<Rightarrow> string \<Rightarrow> qstate \<Rightarrow> qstate" where
  "without_month isCurrentYear msg st =
     st\<lparr>publicationsWithoutMonth := publicationsWithoutMonth st + 1,
        publicationsCountedInTotal :=
          (if \<not> isCurrentYear then publicationsCountedInTotal st + 1
           else publicationsCountedInTotal st),
        console := console st @ [ConsoleWarn msg]\<rparr>"

definition count_quarter :: "nat \<Rightarrow> qstate \<Rightarrow> qstate" where
  "count_quarter pubQuarter st =
     (if pubQuarter = 1 then st\<lparr>q1 := q1 st + 1\<rparr>
      else if pubQuarter = 2 then st\<lparr>q2 := q2 st + 1\<rparr>
      else if pubQuarter = 3 then st\<lparr>q3 := q3 st + 1\<rparr>
      else if pubQuarter = 4 then st\<lparr>q4 := q4 st + 1\<rparr>
      else st)
     \<lparr>publicationsCountedInTotal := publicationsCountedInTotal st + 1\<rparr>"

text \<open>
  One round of \<^verbatim>\<open>filteredPublications.forEach\<close> over the months. The read of
  \<^verbatim>\<open>pub.month\<close> stands outside the inner \<^verbatim>\<open>try\<close>; an exception of
  \<^verbatim>\<open>parseInt(month)\<close> is caught inside it. The result is the exception that left the
  round, if any, and the variables as the round left them. (The template literal of
  the invalid-month warning converts \<^verbatim>\<open>month\<close> to a string a second time; that
  conversion has just succeeded inside \<^verbatim>\<open>parseInt\<close>.)
\<close>

definition month_step ::
  "(rat \<Rightarrow> string) \<Rightarrow> bool \<Rightarrow> nat \<Rightarrow> jsval \<Rightarrow> qstate \<Rightarrow> js_error option \<times> qstate" where
  "month_step ns isCurrentYear currentQuarter pub st =
     (case get_prop pub ''month'' of
        Inl e \<Rightarrow> (Some e, st)
      | Inr month \<Rightarrow>
          (None,
           if month \<noteq> JNull \<and> month \<noteq> JUndefined \<and> month \<noteq> JStr [] then
             (case parseInt_js ns month 0 of
                Inl e \<Rightarrow> without_month isCurrentYear ''Error parsing month for publication:'' st
              | Inr None \<Rightarrow> without_month isCurrentYear ''Publication has invalid month:'' st
              | Inr (Some monthInt) \<Rightarrow>
                  if 1 \<le> monthInt \<and> monthInt \<le> 12 then
                    (let pubQuarter = pubQuarter_of monthInt
                     in if 0 < pubQuarter \<and> (\<not> isCurrentYear \<or> pubQuarter \<le> currentQuarter)
                        then count_quarter pubQuarter st
                        else st)
                  else without_month isCurrentYear ''Publication has invalid month:'' st)
           else without_month isCurrentYear ''Publication missing month:'' st))"

fun month_loop ::
  "(rat \<Rightarrow> string) \<Rightarrow> bool \<Rightarrow> nat \<Rightarrow> jsval list \<Rightarrow> qstate \<Rightarrow> js_error option \<times> qstate" where
  "month_loop ns isCurrentYear currentQuarter [] st = (None, st)"
| "month_loop ns isCurrentYear currentQuarter (pub # pubs) st =
     (case month_step ns isCurrentYear currentQuarter pub st of
        (Some e, st') \<Rightarrow> (Some e, st')
      | (None, st') \<Rightarrow> month_loop ns isCurrentYear currentQuarter pubs st')"

text \<open>
  Lines 159 to 219: the month loop from zero counters, \<^verbatim>\<open>total_publications\<close>, and
  the mismatch diagnostic. The result is the exception, if any, the variables, and
  \<^verbatim>\<open>total_publications\<close>. \<open>filterYear\<close> is the Number that
  \<^verbatim>\<open>parseInt(year, 10)\<close> returned, \<open>currentYear\<close> the integer \<^verbatim>\<open>getFullYear()\<close>.
\<close>

definition quarterly_mismatch :: string where
  "quarterly_mismatch = ''Quarterly count mismatch''"

definition quarterlyCounts ::
  "(rat \<Rightarrow> string) \<Rightarrow> jsval list \<Rightarrow> jsnum \<Rightarrow> int \<Rightarrow> int \<Rightarrow> js_error option \<times> qstate \<times> nat" where
  "quarterlyCounts ns filteredPublications filterYear currentYear currentMonth =
     (let isCurrentYear = (filterYear = Fin (of_int currentYear));
          currentQuarter = currentQuarter_of currentMonth
      in case month_loop ns isCurrentYear currentQuarter filteredPublications qstate0 of
           (Some e, st) \<Rightarrow> (Some e, st, 0)
         | (None, st) \<Rightarrow>
             (let total_publications =
                    (if isCurrentYear then publicationsCountedInTotal st
                     else length filteredPublications);
                  quarterlySum = q1 st + q2 st + q3 st + q4 st
              in (None,
                  if quarterlySum + publicationsWithoutMonth st \<noteq> total_publications
                     \<and> \<not> isCurrentYear
                  then st\<lparr>console := console st @ [ConsoleWarn quarterly_mismatch]\<rparr>
                  else st,
                  total_publications)))"

text \<open>The same for a filter year that is an integer (the specification's contract).\<close>

definition computeQuarterly ::
  "(rat \<Rightarrow> string) \<Rightarrow> jsval list \<Rightarrow> int \<Rightarrow> int \<Rightarrow> int \<Rightarrow> js_error option \<times> qstate \<times> nat" where
  "computeQuarterly ns filteredPublications filterYear currentYear currentMonth =
     quarterlyCounts ns filteredPublications (Fin (of_int filterYear)) currentYear currentMonth"

section \<open>College aggregation\<close>

record college_counts =
  engineering :: nat
  informatics_computing :: nat
  engineering_technology :: nat
  architecture_design :: nat

definition college_counts0 :: college_counts where
  "college_counts0 = \<lparr>engineering = 0, informatics_computing = 0,
                      engineering_technology = 0, architecture_design = 0\<rparr>"

text \<open>
  \<^verbatim>\<open>if (college_counts.hasOwnProperty(c)) college_counts[c]++\<close>: the entry is
  converted to a property key, which is its string.
\<close>

definition college_entry :: "(rat \<Rightarrow> string) \<Rightarrow> jsval \<Rightarrow> college_counts \<Rightarrow> js_error + college_counts" where
  "college_entry ns c cc =
     (case to_string ns c of
        Inl e \<Rightarrow> Inl e
      | Inr k \<Rightarrow>
          Inr (if k = ''engineering'' then cc\<lparr>engineering := engineering cc + 1\<rparr>
               else if k = ''informatics_computing''
                 then cc\<lparr>informatics_computing := informatics_computing cc + 1\<rparr>
               else if k = ''engineering_technology''
                 then cc\<lparr>engineering_technology := engineering_technology cc + 1\<rparr>
               else if k = ''architecture_design''
                 then cc\<lparr>architecture_design := architecture_design cc + 1\<rparr>
               else cc))"

fun college_entries :: "(rat \<Rightarrow> string) \<Rightarrow> jsval list \<Rightarrow> college_counts \<Rightarrow> js_error + college_counts" where
  "college_entries ns [] cc = Inr cc"
| "college_entries ns (c # cs) cc =
     (case college_entry ns c cc of Inl e \<Rightarrow> Inl e | Inr cc' \<Rightarrow> college_entries ns cs cc')"

text \<open>
  \<^verbatim>\<open>const colleges = pub.colleges || []; colleges.forEach(...)\<close>: only an array has
  \<^verbatim>\<open>forEach\<close>; on any other truthy value the call raises a TypeError.
\<close>

definition college_step :: "(rat \<Rightarrow> string) \<Rightarrow> jsval \<Rightarrow> college_counts \<Rightarrow> js_error + college_counts" where
  "college_step ns pub cc =
     (case get_prop pub ''colleges'' of
        Inl e \<Rightarrow> Inl e
      | Inr c \<Rightarrow>
          (case (if truthy c then c else JArr []) of
             JArr colleges \<Rightarrow> college_entries ns colleges cc
           | _ \<Rightarrow> Inl TypeError))"

fun college_loop :: "(rat \<Rightarrow> string) \<Rightarrow> jsval list \<Rightarrow> college_counts \<Rightarrow> js_error + college_counts" where
  "college_loop ns [] cc = Inr cc"
| "college_loop ns (pub # pubs) cc =
     (case college_step ns pub cc of Inl e \<Rightarrow> Inl e | Inr cc' \<Rightarrow> college_loop ns pubs cc')"

definition computeCollegeCounts :: "(rat \<Rightarrow> string) \<Rightarrow> jsval list \<Rightarrow> js_error + college_counts" where
  "computeCollegeCounts ns filteredPublications =
     college_loop ns filteredPublications college_counts0"

section \<open>The loader\<close>

text \<open>
  What the script takes from outside itself. \<^verbatim>\<open>JSON.parse\<close> (\<open>None\<close> when it
  raises), \<^verbatim>\<open>JSON.stringify\<close> and the printing of numbers belong to the engine.
  \<^verbatim>\<open>updateDashboard\<close> writes the statistics to the page; the loader only hands it a
  value, and whether the call returns or raises depends on the value and on the page,
  so that is a parameter too. The clock is read three times: \<^verbatim>\<open>Date.now()\<close> in
  \<^verbatim>\<open>isCacheValid\<close>, \<^verbatim>\<open>new Date()\<close> in the year filter (\<open>currentMonth\<close> is
  \<^verbatim>\<open>getMonth() + 1\<close>), and \<^verbatim>\<open>Date.now()\<close> in \<^verbatim>\<open>setCachedData\<close>. \<open>reply\<close> is
  what the network answers to the one request of \<^verbatim>\<open>loadAllData\<close>: no answer, or a
  status and the body as \<^verbatim>\<open>response.json()\<close> reads it (\<open>None\<close> when that raises).
\<close>

datatype fetch_reply = NetworkFailure | HttpResponse bool "jsval option"

record world =
  jsonParse :: "string \<Rightarrow> jsval option"
  jsonStringify :: "jsval \<Rightarrow> string"
  numberToString :: "rat \<Rightarrow> string"
  updateDashboardReturns :: "jsval \<Rightarrow> bool"
  dateNow :: int
  currentYear :: int
  currentMonth :: int
  reply :: fetch_reply
  storeTime :: int

text \<open>A run of a loader: the store it leaves, what it did, and whether it raised.\<close>

record run =
  stored :: storage
  trace :: "event list"
  rejected :: bool

definition getCachedData :: "world \<Rightarrow> storage \<Rightarrow> jsval \<times> event list" where
  "getCachedData W st =
     (case st CACHE_KEY of
        None \<Rightarrow> (JNull, [])
      | Some cached \<Rightarrow>
          if cached = [] then (JNull, [])
          else (case jsonParse W cached of
                  Some v \<Rightarrow> (v, [])
                | None \<Rightarrow> (JNull, [ConsoleError ''Error parsing cached data:''])))"

definition setCachedData :: "world \<Rightarrow> jsval \<Rightarrow> storage \<Rightarrow> storage" where
  "setCachedData W data st =
     st(CACHE_KEY \<mapsto> jsonStringify W data,
        CACHE_TIMESTAMP_KEY \<mapsto> int_to_string (storeTime W),
        CACHE_VERSION_KEY \<mapsto> int_to_string CACHE_VERSION)"

definition nat_val :: "nat \<Rightarrow> jsval" where
  "nat_val n = JNum (Fin (of_nat n))"

definition quarterly_object :: "qstate \<Rightarrow> jsval" where
  "quarterly_object st =
     JObj [(''q1'', nat_val (q1 st)), (''q2'', nat_val (q2 st)),
           (''q3'', nat_val (q3 st)), (''q4'', nat_val (q4 st))]"

definition college_object :: "college_counts \<Rightarrow> jsval" where
  "college_object cc =
     JObj [(''engineering'', nat_val (engineering cc)),
           (''informatics_computing'', nat_val (informatics_computing cc)),
           (''engineering_technology'', nat_val (engineering_technology cc)),
           (''architecture_design'', nat_val (architecture_design cc))]"

text \<open>The literal that \<^verbatim>\<open>loadAllData\<close> renders when it has nothing else.\<close>

definition zero_stats :: jsval where
  "zero_stats =
     JObj [(''total_publications'', nat_val 0),
           (''college_counts'', college_object college_counts0),
           (''department_counts'', JObj []),
           (''quarterly_counts'', quarterly_object qstate0)]"

text \<open>A call of \<^verbatim>\<open>updateDashboard\<close> as the last thing a run does.\<close>

definition render :: "world \<Rightarrow> storage \<Rightarrow> event list \<Rightarrow> jsval \<Rightarrow> run" where
  "render W st out stats =
     \<lparr>stored = st, trace = out @ [UpdateDashboard stats],
      rejected = (\<not> updateDashboardReturns W stats)\<rparr>"

text \<open>\<^verbatim>\<open>updateDashboard(cachedData.dashboard_stats)\<close>, after a line on the console.\<close>

definition render_cached :: "world \<Rightarrow> storage \<Rightarrow> event list \<Rightarrow> jsval \<Rightarrow> run" where
  "render_cached W st out cachedData =
     (case get_prop cachedData ''dashboard_stats'' of
        Inl e \<Rightarrow> \<lparr>stored = st, trace = out, rejected = True\<rparr>
      | Inr stats \<Rightarrow> render W st out stats)"

text \<open>The \<^verbatim>\<open>catch\<close> block of \<^verbatim>\<open>loadAllData\<close>.\<close>

definition load_failed :: "world \<Rightarrow> storage \<Rightarrow> event list \<Rightarrow> run" where
  "load_failed W st out =
     (case getCachedData W st of
        (cachedData, perr) \<Rightarrow>
          (let out1 = out @ [ConsoleError ''Error loading data:'', HideLoadingState,
                             ShowErrorState] @ perr
           in if truthy cachedData
              then render_cached W st
                     (out1 @ [ConsoleLog ''Using expired cached data due to fetch error''])
                     cachedData
              else render W st out1 zero_stats))"

text \<open>The \<^verbatim>\<open>try\<close> block of \<^verbatim>\<open>loadAllData\<close>, with its \<^verbatim>\<open>catch\<close>.\<close>

definition load_fetch :: "world \<Rightarrow> storage \<Rightarrow> event list \<Rightarrow> run" where
  "load_fetch W st out0 =
     (let out = out0 @ [ShowLoadingState, FetchAllData]
      in case reply W of
           NetworkFailure \<Rightarrow> load_failed W st out
         | HttpResponse ok body \<Rightarrow>
             if \<not> ok then load_failed W st out
             else
               (case body of
                  None \<Rightarrow> load_failed W st out
                | Some data \<Rightarrow>
                    (case get_prop data ''error'' of
                       Inl e \<Rightarrow> load_failed W st out
                     | Inr err \<Rightarrow>
                         if truthy err then load_failed W st out
                         else
                           (let st' = setCachedData W data st
                            in case get_prop data ''dashboard_stats'' of
                                 Inl e \<Rightarrow> load_failed W st' out
                               | Inr stats \<Rightarrow>
                                   if updateDashboardReturns W stats
                                   then \<lparr>stored = st', trace = out @ [UpdateDashboard stats],
                                         rejected = False\<rparr>
                                   else load_failed W st' (out @ [UpdateDashboard stats])))))"

definition loadAllData :: "world \<Rightarrow> storage \<Rightarrow> run" where
  "loadAllData W st =
     (if isCacheValid st (dateNow W) then
        (case getCachedData W st of
           (cachedData, perr) \<Rightarrow>
             if truthy cachedData
             then render_cached W st (perr @ [ConsoleLog ''Using cached data'']) cachedData
             else load_fetch W st perr)
      else load_fetch W st [])"

subsection \<open>The year filter\<close>

text \<open>
  The own enumerable properties of a value, which \<^verbatim>\<open>{...v}\<close> copies: the properties
  of an object, the elements of an array and the characters of a string under their
  indices, nothing of any other value.
\<close>

fun own_props :: "jsval \<Rightarrow> (string \<times> jsval) list" where
  "own_props (JObj fs) = fs"
| "own_props (JArr xs) = zip (map nat_digits [0..<length xs]) xs"
| "own_props (JStr s) = zip (map nat_digits [0..<length s]) (map (\<lambda>c. JStr [c]) s)"
| "own_props v = []"

text \<open>
  The object literal of lines 236 to 241: the spread, then the three properties, each
  replacing the value of a property that is there and added at the end otherwise.
\<close>

definition merge_stats :: "jsval \<Rightarrow> nat \<Rightarrow> qstate \<Rightarrow> college_counts \<Rightarrow> jsval" where
  "merge_stats dashboardStats n quarterly colleges =
     JObj (AList.update ''college_counts'' (college_object colleges)
            (AList.update ''quarterly_counts'' (quarterly_object quarterly)
              (AList.update ''total_publications'' (nat_val n)
                (own_props dashboardStats))))"

text \<open>
  The \<^verbatim>\<open>try\<close> block of \<^verbatim>\<open>loadDashboardData\<close> for a non-empty \<open>year\<close>. It ends in
  one of three ways: it has rendered and returned (\<open>Inr None\<close>), it has computed the
  new \<^verbatim>\<open>dashboardStats\<close> (\<open>Inr (Some stats)\<close>), or it has raised. The console lines
  it wrote come with each.
\<close>

definition year_filter :: "world \<Rightarrow> jsval \<Rightarrow> jsval \<Rightarrow> string \<Rightarrow> event list \<times> (js_error + jsval option)" where
  "year_filter W cachedData dashboardStats year =
     (case parseInt year 10 of
        None \<Rightarrow>
          ([UpdateDashboard dashboardStats],
           if updateDashboardReturns W dashboardStats then Inr None else Inl TypeError)
      | Some y \<Rightarrow>
          (let filterYear = to_number y
           in case get_prop cachedData ''publications'' of
                Inl e \<Rightarrow> ([], Inl e)
              | Inr pubs \<Rightarrow>
                  (case (if truthy pubs then pubs else JArr []) of
                     JArr allPublications \<Rightarrow>
                       (case filterByYear (numberToString W) filterYear allPublications of
                          Inl e \<Rightarrow> ([], Inl e)
                        | Inr filteredPublications \<Rightarrow>
                            (case quarterlyCounts (numberToString W) filteredPublications
                                    filterYear (currentYear W) (currentMonth W) of
                               (Some e, st, n) \<Rightarrow> (console st, Inl e)
                             | (None, st, n) \<Rightarrow>
                                 (case computeCollegeCounts (numberToString W)
                                         filteredPublications of
                                    Inl e \<Rightarrow> (console st, Inl e)
                                  | Inr cc \<Rightarrow>
                                      (console st,
                                       Inr (Some (merge_stats dashboardStats n st cc))))))
                   | _ \<Rightarrow> ([], Inl TypeError))))"

definition loadDashboardData :: "world \<Rightarrow> storage \<Rightarrow> string \<Rightarrow> run" where
  "loadDashboardData W st year =
     (case getCachedData W st of
        (cachedData, perr) \<Rightarrow>
          if \<not> truthy cachedData
          then (let r = loadAllData W st in r\<lparr>trace := perr @ trace r\<rparr>)
          else
            (case get_prop cachedData ''dashboard_stats'' of
               Inl e \<Rightarrow> \<lparr>stored = st, trace = perr, rejected = True\<rparr>
             | Inr dashboardStats \<Rightarrow>
                 if year \<noteq> [] then
                   (case year_filter W cachedData dashboardStats year of
                      (out, Inr None) \<Rightarrow> \<lparr>stored = st, trace = perr @ out, rejected = False\<rparr>
                    | (out, Inr (Some stats)) \<Rightarrow> render W st (perr @ out) stats
                    | (out, Inl e) \<Rightarrow>
                        render W st (perr @ out @ [ConsoleError ''Error filtering by year:''])
                          dashboardStats)
                 else render W st perr dashboardStats))"

section \<open>The vocabulary of the specification\<close>

text \<open>
  The specification's \<^verbatim>\<open>normalizeMonth\<close> (section 4.2): a raw month is valid only if
  it parses as an integer in 1 to 12; anything else, a parse exception included, is
  "month unknown".
\<close>

definition normalizeMonth :: "(rat \<Rightarrow> string) \<Rightarrow> jsval \<Rightarrow> int option" where
  "normalizeMonth ns rawMonth =
     (case parseInt_js ns rawMonth 0 of
        Inr (Some m) \<Rightarrow> if 1 \<le> m \<and> m \<le> 12 then Some m else None
      | _ \<Rightarrow> None)"

text \<open>The specification's fixed mapping of the months 1 to 12 to the quarters.\<close>

definition quarter_of_month :: "int \<Rightarrow> nat" where
  "quarter_of_month m =
     (if m \<in> {1, 2, 3} then 1 else if m \<in> {4, 5, 6} then 2
      else if m \<in> {7, 8, 9} then 3 else 4)"

text \<open>The month of a record, and the quarter its month maps to, if it has one.\<close>

definition month_of :: "jsval \<Rightarrow> jsval" where
  "month_of pub = (case get_prop pub ''month'' of Inl e \<Rightarrow> JUndefined | Inr m \<Rightarrow> m)"

definition record_quarter :: "(rat \<Rightarrow> string) \<Rightarrow> jsval \<Rightarrow> nat option" where
  "record_quarter ns pub = map_option quarter_of_month (normalizeMonth ns (month_of pub))"

text \<open>
  A record is any value whose properties can be read: every value but \<^verbatim>\<open>null\<close> and
  \<^verbatim>\<open>undefined\<close>. Every publication that passes the year filter is one.
\<close>

definition is_record :: "jsval \<Rightarrow> bool" where
  "is_record pub = (pub \<noteq> JNull \<and> pub \<noteq> JUndefined)"

text \<open>
  The quarter a record is tallied into: the quarter of its month, unless the filter
  year is the current year and that quarter lies after the current one.
\<close>

definition tallied :: "(rat \<Rightarrow> string) \<Rightarrow> bool \<Rightarrow> nat \<Rightarrow> jsval \<Rightarrow> nat option" where
  "tallied ns isCurrentYear currentQuarter pub =
     (case record_quarter ns pub of
        None \<Rightarrow> None
      | Some k \<Rightarrow> if \<not> isCurrentYear \<or> k \<le> currentQuarter then Some k else None)"

text \<open>Whether a record adds to \<^verbatim>\<open>publicationsCountedInTotal\<close>.\<close>

definition counts_as :: "(rat \<Rightarrow> string) \<Rightarrow> bool \<Rightarrow> nat \<Rightarrow> jsval \<Rightarrow> bool" where
  "counts_as ns isCurrentYear currentQuarter pub =
     (case record_quarter ns pub of
        None \<Rightarrow> \<not> isCurrentYear
      | Some k \<Rightarrow> \<not> isCurrentYear \<or> k \<le> currentQuarter)"

text \<open>A record whose month is valid and lies in a quarter up to the given one.\<close>

definition realized :: "(rat \<Rightarrow> string) \<Rightarrow> nat \<Rightarrow> jsval \<Rightarrow> bool" where
  "realized ns currentQuarter pub =
     (case record_quarter ns pub of None \<Rightarrow> False | Some k \<Rightarrow> k \<le> currentQuarter)"

text \<open>One for a true condition, zero otherwise; and the sum of the four quarters.\<close>

definition ind :: "bool \<Rightarrow> nat" where
  "ind b = (if b then 1 else 0)"

definition qsum :: "qstate \<Rightarrow> nat" where
  "qsum st = q1 st + q2 st + q3 st + q4 st"

text \<open>
  The records of the specification's examples. Their numbers are integers, so any
  printing of the other numbers serves.
\<close>

definition example_ns :: "rat \<Rightarrow> string" where
  "example_ns q = ''0.5''"

definition example_records :: "jsval list" where
  "example_records =
     [JObj [(''year'', int_val 2023), (''month'', int_val 1)],
      JObj [(''year'', int_val 2023), (''month'', int_val 4)],
      JObj [(''year'', int_val 2023), (''month'', JNull)]]"

text \<open>
  The \<^verbatim>\<open>colleges\<close> sequence of a record as the data model has it: the names in
  an array of strings, none when the property is falsy (absent, \<^verbatim>\<open>null\<close>, ...).
  \<open>None\<close> when the value is neither.
\<close>

definition string_of :: "jsval \<Rightarrow> string option" where
  "string_of v = (case v of JStr s \<Rightarrow> Some s | _ \<Rightarrow> None)"

definition college_names :: "jsval \<Rightarrow> string list option" where
  "college_names pub =
     (case get_prop pub ''colleges'' of
        Inl e \<Rightarrow> None
      | Inr c \<Rightarrow>
          if \<not> truthy c then Some []
          else (case c of JArr cs \<Rightarrow> those (map string_of cs) | _ \<Rightarrow> None))"

text \<open>Counters with the occurrences of the four keys in a list of names added.\<close>

definition add_names :: "string list \<Rightarrow> college_counts \<Rightarrow> college_counts" where
  "add_names ss cc =
     \<lparr>engineering = engineering cc + count_list ss ''engineering'',
      informatics_computing = informatics_computing cc + count_list ss ''informatics_computing'',
      engineering_technology = engineering_technology cc + count_list ss ''engineering_technology'',
      architecture_design = architecture_design cc + count_list ss ''architecture_design''\<rparr>"


text \<open>The records of the specification's college example.\<close>

definition example_colleges :: "jsval list" where
  "example_colleges =
     [JObj [(''colleges'', JArr [JStr ''engineering''])],
      JObj [(''colleges'', JArr [JStr ''engineering'', JStr ''informatics_computing''])],
      JObj [(''colleges'', JArr [])]]"


text \<open>
  The values that \<^verbatim>\<open>getPubYear\<close> hands to \<^verbatim>\<open>parseInt(pubYear, 10)\<close> in its last
  two lines: neither \<^verbatim>\<open>null\<close> nor \<^verbatim>\<open>undefined\<close>, not a string, and not a number
  other than \<^verbatim>\<open>NaN\<close>.
\<close>

definition other_type :: "jsval \<Rightarrow> bool" where
  "other_type v =
     (case v of JBool b \<Rightarrow> True | JArr xs \<Rightarrow> True | JObj fs \<Rightarrow> True | JNum NaN \<Rightarrow> True
      | _ \<Rightarrow> False)"

text \<open>The values handed to \<^verbatim>\<open>updateDashboard\<close> in a run, in order.\<close>

fun renders :: "event list \<Rightarrow> jsval list" where
  "renders [] = []"
| "renders (UpdateDashboard v # es) = v # renders es"
| "renders (e # es) = renders es"

text \<open>Console lines only: no request, no rendering.\<close>

definition quiet :: "event list \<Rightarrow> bool" where
  "quiet es = (renders es = [] \<and> FetchAllData \<notin> set es)"




text \<open>The three properties the year filter recomputes.\<close>

definition recomputed :: "string set" where
  "recomputed = {''total_publications'', ''quarterly_counts'', ''college_counts''}"

text \<open>
  A cached envelope, a store that holds it without timestamp and version marker (so
  the cache is not valid), and a world whose network is down, for the examples.
\<close>

definition example_stats :: jsval where
  "example_stats =
     JObj [(''total_publications'', nat_val 9),
           (''department_counts'', JObj [(''Computer Science'', nat_val 9)]),
           (''earliest_year'', nat_val 2019)]"

definition example_envelope :: jsval where
  "example_envelope =
     JObj [(''dashboard_stats'', example_stats), (''publications'', JArr example_records)]"

definition example_world :: world where
  "example_world =
     \<lparr>jsonParse = (\<lambda>s. if s = ''{envelope}'' then Some example_envelope else None),
      jsonStringify = (\<lambda>v. ''{envelope}''),
      numberToString = example_ns,
      updateDashboardReturns = (\<lambda>v. True),
      dateNow = 1700000000000,
      currentYear = 2024,
      currentMonth = 2,
      reply = NetworkFailure,
      storeTime = 1700000000000\<rparr>"

definition example_store :: storage where
  "example_store = [CACHE_KEY \<mapsto> ''{envelope}'']"

text \<open>What the example envelope's statistics become under the filter year 2023 in 2024.\<close>

definition example_filtered :: jsval where
  "example_filtered =
     JObj [(''total_publications'', nat_val 3),
           (''department_counts'', JObj [(''Computer Science'', nat_val 9)]),
           (''earliest_year'', nat_val 2019),
           (''quarterly_counts'',
            JObj [(''q1'', nat_val 1), (''q2'', nat_val 1), (''q3'', nat_val 0), (''q4'', nat_val 0)]),
           (''college_counts'', college_object college_counts0)]"

subsection \<open>The specification's year normaliser\<close>

text \<open>The \<^verbatim>\<open>year\<close> of a record; \<^verbatim>\<open>undefined\<close> when the record has none.\<close>

definition year_of :: "jsval \<Rightarrow> jsval" where
  "year_of pub = (case get_prop pub ''year'' of Inl e \<Rightarrow> JUndefined | Inr y \<Rightarrow> y)"

text \<open>
  The specification's "parse as integer": the integer that the text begins with, after
  white space and a sign, in decimal digits, as the language holds it (the nearest
  double). There is none when the text begins with no digit, or when the integer lies
  beyond the doubles.
\<close>

definition parse_integer :: "string \<Rightarrow> int option" where
  "parse_integer t =
     (case parseInt t 10 of
        None \<Rightarrow> None
      | Some i \<Rightarrow> (case to_number i of Fin q \<Rightarrow> Some \<lfloor>q\<rfloor> | _ \<Rightarrow> None))"

text \<open>
  The specification's \<^verbatim>\<open>normalizeYear\<close> (section 4.2), rule by rule, \<open>None\<close> being
  its \<^verbatim>\<open>null\<close>: (1) \<^verbatim>\<open>null\<close>, an absent year and the empty string give
  \<^verbatim>\<open>null\<close>; (2) a finite number gives its integer floor; (3) a string with a slash
  gives the integer parsed from the trimmed text before the first slash and, failing
  that, the integer parsed from the trimmed whole string; (4) any other string gives
  the integer parsed from it; (5) a value of any other type is coerced, which is to
  say parsed from its conversion to a string; and whatever does not parse gives
  \<^verbatim>\<open>null\<close>.
\<close>

fun normalizeYear_spec :: "(rat \<Rightarrow> string) \<Rightarrow> jsval \<Rightarrow> int option" where
  "normalizeYear_spec ns JNull = None"
| "normalizeYear_spec ns JUndefined = None"
| "normalizeYear_spec ns (JNum (Fin q)) = Some \<lfloor>q\<rfloor>"
| "normalizeYear_spec ns (JStr s) =
     (if s = [] then None
      else if CHR ''/'' \<in> set s
      then (case parse_integer (trim (takeWhile (\<lambda>c. c \<noteq> CHR ''/'') s)) of
              Some n \<Rightarrow> Some n
            | None \<Rightarrow> parse_integer (trim s))
      else parse_integer s)"
| "normalizeYear_spec ns v =
     (case to_string ns v of Inl e \<Rightarrow> None | Inr t \<Rightarrow> parse_integer t)"

text \<open>
  Records whose years take every form the normaliser knows: the text \<^verbatim>\<open>2023\<close>, the
  text \<^verbatim>\<open>2023/05\<close>, the number 2023.5, a text that does not parse, \<^verbatim>\<open>null\<close>,
  another year, and no year at all. The first three are of the year 2023.
\<close>

definition mixed_year_records :: "jsval list" where
  "mixed_year_records =
     [JObj [(''year'', JStr ''2023''), (''month'', int_val 1)],
      JObj [(''year'', JStr ''2023/05''), (''month'', JStr ''4'')],
      JObj [(''year'', JNum (Fin (4047 / 2))), (''month'', JNull)],
      JObj [(''year'', JStr ''n/a''), (''month'', int_val 1)],
      JObj [(''year'', JNull), (''month'', int_val 1)],
      JObj [(''year'', int_val 2024), (''month'', int_val 1)],
      JObj [(''month'', int_val 1)]]"

definition year_2023_records :: "jsval list" where
  "year_2023_records =
     [JObj [(''year'', JStr ''2023''), (''month'', int_val 1)],
      JObj [(''year'', JStr ''2023/05''), (''month'', JStr ''4'')],
      JObj [(''year'', JNum (Fin (4047 / 2))), (''month'', JNull)]]"

text \<open>
  A record whose year is a text beyond \<^verbatim>\<open>2^53\<close>: \<^verbatim>\<open>parseInt\<close> returns the nearest
  double, 9007199254740992.
\<close>

definition late_year_record :: jsval where
  "late_year_record = JObj [(''year'', JStr ''9007199254740993''), (''month'', int_val 1)]"

subsection \<open>Further examples\<close>







text \<open>A valid integer, as text: decimal digits after an optional sign, and nothing else.\<close>

definition is_integer_string :: "string \<Rightarrow> bool" where
  "is_integer_string s =
     (let t = (if s \<noteq> [] \<and> (hd s = CHR ''+'' \<or> hd s = CHR ''-'') then tl s else s)
      in t \<noteq> [] \<and> list_all (\<lambda>c. digit_val c < 10) t)"

text \<open>
  The values whose conversion to a string raises: an object with an own
  \<^verbatim>\<open>toString\<close> property, and an array that holds such a value.
\<close>

fun unprintable :: "jsval \<Rightarrow> bool" where
  "unprintable (JObj fs) = (''toString'' \<in> fst ` set fs)"
| "unprintable (JArr xs) = (\<exists>x \<in> set xs. unprintable x)"
| "unprintable v = False"

text \<open>
  A world like the example's whose store, when it holds anything, holds the given
  envelope.
\<close>

definition cached_world :: "jsval \<Rightarrow> world" where
  "cached_world envelope = example_world\<lparr>jsonParse := (\<lambda>s. Some envelope)\<rparr>"

text \<open>An envelope with one publication, whose year is an object with an own \<^verbatim>\<open>toString\<close>.\<close>

definition bad_year_record :: jsval where
  "bad_year_record = JObj [(''year'', JObj [(''toString'', int_val 1)])]"

definition bad_year_envelope :: jsval where
  "bad_year_envelope =
     JObj [(''dashboard_stats'', example_stats), (''publications'', JArr [bad_year_record])]"



section \<open>Cache validity\<close>

lemma parseInt_null: "parseInt ''null'' 10 = None"
  by (simp add: parseInt_def is_ws_def digit_val_def)

lemma parseInt_empty: "parseInt [] r = None"
  by (simp add: parseInt_def)

text \<open>
  Claim C4. \<^verbatim>\<open>isCacheValid()\<close> is true exactly when the stored version marker parses
  (radix 10) to the schema version 2, a timestamp is stored, and the clock minus the
  parsed timestamp is strictly less than 24 hours of milliseconds. A missing key, an
  empty timestamp and a marker or timestamp that \<^verbatim>\<open>parseInt\<close> maps to \<^verbatim>\<open>NaN\<close> all
  make it false.
\<close>

theorem isCacheValid_iff:
  "isCacheValid st now \<longleftrightarrow>
     (\<exists>v. st CACHE_VERSION_KEY = Some v \<and> parseInt v 10 = Some 2) \<and>
     (\<exists>ts t. st CACHE_TIMESTAMP_KEY = Some ts \<and> parseInt ts 0 = Some t \<and>
             now - t < 24 * 60 * 60 * 1000)"
  by (auto simp: isCacheValid_def CACHE_VERSION_def CACHE_DURATION_def Let_def
        parseInt_null parseInt_empty split: option.splits)

theorem isCacheValid_iff_witness:
  "isCacheValid [CACHE_VERSION_KEY \<mapsto> ''2'', CACHE_TIMESTAMP_KEY \<mapsto> ''1700000000000'']
     1700086399999 \<and>
   \<not> isCacheValid [CACHE_VERSION_KEY \<mapsto> ''2'', CACHE_TIMESTAMP_KEY \<mapsto> ''1700000000000'']
     1700086400000 \<and>
   \<not> isCacheValid [CACHE_VERSION_KEY \<mapsto> ''1'', CACHE_TIMESTAMP_KEY \<mapsto> ''1700000000000'']
     1700086399999 \<and>
   \<not> isCacheValid [CACHE_VERSION_KEY \<mapsto> ''2''] 1700086399999"
proof -
  have k: "CACHE_VERSION_KEY \<noteq> CACHE_TIMESTAMP_KEY"
    by (simp add: CACHE_VERSION_KEY_def CACHE_TIMESTAMP_KEY_def)
  have p: "parseInt ''2'' 10 = Some 2" "parseInt ''1'' 10 = Some 1"
    "parseInt ''1700000000000'' 0 = Some 1700000000000"
    by (simp_all add: parseInt_def is_ws_def digit_val_def)
  show ?thesis
    using k by (simp add: isCacheValid_iff p)
qed

section \<open>Number values\<close>

lemma to_number_small: "\<bar>i\<bar> < 2 ^ 53 \<Longrightarrow> to_number i = Fin (of_int i)"
proof -
  assume "\<bar>i\<bar> < 2 ^ 53"
  then have n: "nat \<bar>i\<bar> < 2 ^ 53" by (simp add: nat_less_iff)
  then have r: "round_nat (nat \<bar>i\<bar>) = nat \<bar>i\<bar>" by (simp add: round_nat_def)
  have "(2::nat) ^ 53 \<le> 2 ^ 1024" by (rule power_increasing) simp_all
  with n have "\<not> 2 ^ 1024 \<le> nat \<bar>i\<bar>" by simp
  with r show ?thesis by (simp add: to_number_def Let_def)
qed

lemma to_number_integral: "to_number i = Fin q \<Longrightarrow> q = of_int \<lfloor>q\<rfloor>"
  by (auto simp: to_number_def Let_def split: if_splits)

lemma to_number_not_NaN: "to_number i \<noteq> NaN"
  by (simp add: to_number_def Let_def)

lemma nan_to_null_small:
  "\<bar>n\<bar> < 2 ^ 53 \<Longrightarrow> nan_to_null (Some n) = int_val n" "nan_to_null None = JNull"
  by (simp_all add: nan_to_null_def int_val_def to_number_small)

lemma nan_to_null_cases:
  "nan_to_null x = JNull \<or> (\<exists>n. nan_to_null x = int_val n) \<or>
   nan_to_null x = JNum PosInfinity \<or> nan_to_null x = JNum NegInfinity"
proof (cases x)
  case None
  then show ?thesis by (simp add: nan_to_null_def)
next
  case (Some y)
  show ?thesis
  proof (cases "to_number y")
    case (Fin q)
    from to_number_integral[OF Fin] have "q = of_int \<lfloor>q\<rfloor>" .
    with Some Fin have "nan_to_null x = int_val \<lfloor>q\<rfloor>"
      by (simp add: nan_to_null_def int_val_def)
    then show ?thesis by blast
  qed (use Some to_number_not_NaN[of y] in \<open>simp_all add: nan_to_null_def\<close>)
qed

section \<open>The month loop\<close>

lemma pubQuarter_of_eq: "1 \<le> m \<Longrightarrow> m \<le> 12 \<Longrightarrow> pubQuarter_of m = quarter_of_month m"
  unfolding pubQuarter_of_def quarter_of_month_def by auto

lemma quarter_of_month_range: "1 \<le> m \<Longrightarrow> m \<le> 12 \<Longrightarrow> 1 \<le> quarter_of_month m \<and> quarter_of_month m \<le> 4"
  unfolding quarter_of_month_def by auto

lemma get_prop_record: "is_record pub \<Longrightarrow> \<exists>v. get_prop pub k = Inr v"
  by (cases pub) (auto simp: is_record_def)

lemma parseInt_missing:
  "parseInt ''null'' 0 = None" "parseInt ''undefined'' 0 = None" "parseInt [] 0 = None"
  by (simp_all add: parseInt_def is_ws_def digit_val_def)

lemma normalizeMonth_missing:
  "normalizeMonth ns JNull = None" "normalizeMonth ns JUndefined = None" "normalizeMonth ns (JStr []) = None"
  by (simp_all add: normalizeMonth_def parseInt_js_def parseInt_missing)

lemma month_step_None:
  assumes "get_prop pub ''month'' = Inr month" "normalizeMonth ns month = None"
  shows "month_step ns cur cq pub st =
           (None, without_month cur ''Error parsing month for publication:'' st) \<or>
         month_step ns cur cq pub st =
           (None, without_month cur ''Publication has invalid month:'' st) \<or>
         month_step ns cur cq pub st =
           (None, without_month cur ''Publication missing month:'' st)"
  using assms
  by (auto simp: month_step_def normalizeMonth_def
        split: sum.splits option.splits if_splits)

lemma month_step_Some:
  assumes "get_prop pub ''month'' = Inr month" "normalizeMonth ns month = Some m"
  shows "month_step ns cur cq pub st =
           (None, if \<not> cur \<or> quarter_of_month m \<le> cq then count_quarter (quarter_of_month m) st else st)"
proof -
  from assms(2) have m: "1 \<le> m" "m \<le> 12" and p: "parseInt_js ns month 0 = Inr (Some m)"
    by (auto simp: normalizeMonth_def split: sum.splits option.splits if_splits)
  from assms(2) have nm: "month \<noteq> JNull" "month \<noteq> JUndefined" "month \<noteq> JStr []"
    using normalizeMonth_missing by auto
  from quarter_of_month_range[OF m] have "0 < quarter_of_month m" by simp
  then show ?thesis
    using assms(1) m p nm by (simp add: month_step_def pubQuarter_of_eq Let_def)
qed

lemma month_step_fields:
  assumes "is_record pub"
  shows "\<exists>st'. month_step ns cur cq pub st = (None, st') \<and>
           q1 st' = q1 st + ind (tallied ns cur cq pub = Some 1) \<and>
           q2 st' = q2 st + ind (tallied ns cur cq pub = Some 2) \<and>
           q3 st' = q3 st + ind (tallied ns cur cq pub = Some 3) \<and>
           q4 st' = q4 st + ind (tallied ns cur cq pub = Some 4) \<and>
           publicationsWithoutMonth st' =
             publicationsWithoutMonth st + ind (record_quarter ns pub = None) \<and>
           publicationsCountedInTotal st' =
             publicationsCountedInTotal st + ind (counts_as ns cur cq pub) \<and>
           (ConsoleWarn quarterly_mismatch \<in> set (console st') \<longleftrightarrow>
              ConsoleWarn quarterly_mismatch \<in> set (console st))"
proof -
  from get_prop_record[OF assms] obtain month where g: "get_prop pub ''month'' = Inr month"
    by blast
  then have mo: "month_of pub = month" by (simp add: month_of_def)
  show ?thesis
  proof (cases "normalizeMonth ns month")
    case None
    from month_step_None[OF g None, of cur cq st] show ?thesis using None mo
      by (auto simp: without_month_def tallied_def record_quarter_def counts_as_def ind_def
            quarterly_mismatch_def)
  next
    case (Some m)
    then have m: "1 \<le> m" "m \<le> 12"
      by (auto simp: normalizeMonth_def split: sum.splits option.splits if_splits)
    from quarter_of_month_range[OF m]
    have "quarter_of_month m = 1 \<or> quarter_of_month m = 2 \<or> quarter_of_month m = 3
            \<or> quarter_of_month m = 4" by arith
    then show ?thesis using month_step_Some[OF g Some, of cur cq st] Some mo
      by (auto simp: count_quarter_def tallied_def record_quarter_def counts_as_def ind_def)
  qed
qed

lemma month_loop_fields:
  assumes "\<forall>p \<in> set pubs. is_record p"
  shows "\<exists>st'. month_loop ns cur cq pubs st = (None, st') \<and>
           q1 st' = q1 st + length (filter (\<lambda>p. tallied ns cur cq p = Some 1) pubs) \<and>
           q2 st' = q2 st + length (filter (\<lambda>p. tallied ns cur cq p = Some 2) pubs) \<and>
           q3 st' = q3 st + length (filter (\<lambda>p. tallied ns cur cq p = Some 3) pubs) \<and>
           q4 st' = q4 st + length (filter (\<lambda>p. tallied ns cur cq p = Some 4) pubs) \<and>
           publicationsWithoutMonth st' =
             publicationsWithoutMonth st + length (filter (\<lambda>p. record_quarter ns p = None) pubs) \<and>
           publicationsCountedInTotal st' =
             publicationsCountedInTotal st + length (filter (counts_as ns cur cq) pubs) \<and>
           (ConsoleWarn quarterly_mismatch \<in> set (console st') \<longleftrightarrow>
              ConsoleWarn quarterly_mismatch \<in> set (console st))"
  using assms
proof (induction pubs arbitrary: st)
  case Nil
  then show ?case by simp
next
  case (Cons p ps)
  then have r: "is_record p" and rs: "\<forall>p \<in> set ps. is_record p" by simp_all
  from month_step_fields[OF r, of ns cur cq st] obtain st1 where
    s1: "month_step ns cur cq p st = (None, st1)"
    and f1: "q1 st1 = q1 st + ind (tallied ns cur cq p = Some 1)"
      "q2 st1 = q2 st + ind (tallied ns cur cq p = Some 2)"
      "q3 st1 = q3 st + ind (tallied ns cur cq p = Some 3)"
      "q4 st1 = q4 st + ind (tallied ns cur cq p = Some 4)"
      "publicationsWithoutMonth st1 =
         publicationsWithoutMonth st + ind (record_quarter ns p = None)"
      "publicationsCountedInTotal st1 =
         publicationsCountedInTotal st + ind (counts_as ns cur cq p)"
      "ConsoleWarn quarterly_mismatch \<in> set (console st1) \<longleftrightarrow>
         ConsoleWarn quarterly_mismatch \<in> set (console st)"
    by blast
  from Cons.IH[OF rs, of st1] obtain st2 where
    s2: "month_loop ns cur cq ps st1 = (None, st2)"
    and f2: "q1 st2 = q1 st1 + length (filter (\<lambda>p. tallied ns cur cq p = Some 1) ps)"
      "q2 st2 = q2 st1 + length (filter (\<lambda>p. tallied ns cur cq p = Some 2) ps)"
      "q3 st2 = q3 st1 + length (filter (\<lambda>p. tallied ns cur cq p = Some 3) ps)"
      "q4 st2 = q4 st1 + length (filter (\<lambda>p. tallied ns cur cq p = Some 4) ps)"
      "publicationsWithoutMonth st2 =
         publicationsWithoutMonth st1 + length (filter (\<lambda>p. record_quarter ns p = None) ps)"
      "publicationsCountedInTotal st2 =
         publicationsCountedInTotal st1 + length (filter (counts_as ns cur cq) ps)"
      "ConsoleWarn quarterly_mismatch \<in> set (console st2) \<longleftrightarrow>
         ConsoleWarn quarterly_mismatch \<in> set (console st1)"
    by blast
  have "month_loop ns cur cq (p # ps) st = (None, st2)" using s1 s2 by simp
  then show ?case using f1 f2 by (simp add: ind_def)
qed

lemma record_quarter_range:
  "record_quarter ns p = Some k \<Longrightarrow> k = 1 \<or> k = 2 \<or> k = 3 \<or> k = 4"
proof -
  assume "record_quarter ns p = Some k"
  then obtain m where "normalizeMonth ns (month_of p) = Some m" "k = quarter_of_month m"
    by (auto simp: record_quarter_def)
  moreover from this have "1 \<le> m" "m \<le> 12"
    by (auto simp: normalizeMonth_def split: sum.splits option.splits if_splits)
  ultimately show ?thesis using quarter_of_month_range[of m] by arith
qed

lemma month_loop_sums:
  assumes "list_all is_record pubs"
  shows "\<exists>st'. month_loop ns cur cq pubs st = (None, st') \<and>
           (\<not> cur \<longrightarrow> qsum st' + publicationsWithoutMonth st' =
                        qsum st + publicationsWithoutMonth st + length pubs) \<and>
           (\<not> cur \<longrightarrow> publicationsCountedInTotal st' = publicationsCountedInTotal st + length pubs) \<and>
           (cur \<longrightarrow> qsum st' + publicationsCountedInTotal st =
                      qsum st + publicationsCountedInTotal st') \<and>
           (ConsoleWarn quarterly_mismatch \<in> set (console st') \<longleftrightarrow>
              ConsoleWarn quarterly_mismatch \<in> set (console st))"
  using assms
proof (induction pubs arbitrary: st)
  case Nil
  then show ?case by simp
next
  case (Cons p ps)
  then have r: "is_record p" and rs: "list_all is_record ps" by simp_all
  from month_step_fields[OF r, of ns cur cq st] obtain st1 where
    s1: "month_step ns cur cq p st = (None, st1)"
    and f1: "q1 st1 = q1 st + ind (tallied ns cur cq p = Some 1)"
      "q2 st1 = q2 st + ind (tallied ns cur cq p = Some 2)"
      "q3 st1 = q3 st + ind (tallied ns cur cq p = Some 3)"
      "q4 st1 = q4 st + ind (tallied ns cur cq p = Some 4)"
      "publicationsWithoutMonth st1 =
         publicationsWithoutMonth st + ind (record_quarter ns p = None)"
      "publicationsCountedInTotal st1 =
         publicationsCountedInTotal st + ind (counts_as ns cur cq p)"
      "ConsoleWarn quarterly_mismatch \<in> set (console st1) \<longleftrightarrow>
         ConsoleWarn quarterly_mismatch \<in> set (console st)"
    by blast
  have a: "\<not> cur \<Longrightarrow> qsum st1 + publicationsWithoutMonth st1 =
                       qsum st + publicationsWithoutMonth st + 1"
    using f1 record_quarter_range[of ns p]
    by (cases "record_quarter ns p") (auto simp: qsum_def tallied_def ind_def)
  have b: "\<not> cur \<Longrightarrow> publicationsCountedInTotal st1 = publicationsCountedInTotal st + 1"
    using f1 by (cases "record_quarter ns p") (auto simp: counts_as_def ind_def)
  have c: "cur \<Longrightarrow> qsum st1 + publicationsCountedInTotal st =
                     qsum st + publicationsCountedInTotal st1"
    using f1 record_quarter_range[of ns p]
    by (cases "record_quarter ns p") (auto simp: qsum_def tallied_def counts_as_def ind_def)
  from Cons.IH[OF rs, of st1] obtain st2 where
    s2: "month_loop ns cur cq ps st1 = (None, st2)"
    and f2: "\<not> cur \<longrightarrow> qsum st2 + publicationsWithoutMonth st2 =
                        qsum st1 + publicationsWithoutMonth st1 + length ps"
      "\<not> cur \<longrightarrow> publicationsCountedInTotal st2 = publicationsCountedInTotal st1 + length ps"
      "cur \<longrightarrow> qsum st2 + publicationsCountedInTotal st1 =
                  qsum st1 + publicationsCountedInTotal st2"
      "ConsoleWarn quarterly_mismatch \<in> set (console st2) \<longleftrightarrow>
         ConsoleWarn quarterly_mismatch \<in> set (console st1)"
    by blast
  have "month_loop ns cur cq (p # ps) st = (None, st2)" using s1 s2 by simp
  moreover have "\<not> cur \<longrightarrow> qsum st2 + publicationsWithoutMonth st2 =
                        qsum st + publicationsWithoutMonth st + length (p # ps)"
    using a f2(1) by auto
  moreover have "\<not> cur \<longrightarrow> publicationsCountedInTotal st2 =
                        publicationsCountedInTotal st + length (p # ps)"
    using b f2(2) by auto
  moreover have "cur \<longrightarrow> qsum st2 + publicationsCountedInTotal st =
                      qsum st + publicationsCountedInTotal st2"
    using c f2(3) by auto
  ultimately show ?case using f1(7) f2(4) by blast
qed

lemma currentQuarter_of_eq:
  "1 \<le> m \<Longrightarrow> m \<le> 12 \<Longrightarrow> currentQuarter_of m = quarter_of_month m"
  unfolding currentQuarter_of_def quarter_of_month_def by auto

section \<open>Reading integers\<close>

lemma is_ws_digit_val: "is_ws c \<Longrightarrow> digit_val c = 36"
  by (auto simp: is_ws_def digit_val_def)

lemma slash_digit_val: "digit_val CHR ''/'' = 36" "\<not> is_ws CHR ''/''"
  by (simp_all add: digit_val_def is_ws_def)

lemma parseInt_10:
  "parseInt x 10 =
     (let S = dropWhile is_ws x;
          S1 = (if S \<noteq> [] \<and> (hd S = CHR ''+'' \<or> hd S = CHR ''-'') then tl S else S);
          Z = takeWhile (\<lambda>c. digit_val c < 10) S1
      in if Z = [] then None
         else Some ((if S \<noteq> [] \<and> hd S = CHR ''-'' then - 1 else 1) *
                    int (foldl (\<lambda>a c. a * 10 + digit_val c) 0 Z)))"
  by (simp add: parseInt_def Let_def)

lemma dropWhile_append_stop:
  "\<not> P a \<Longrightarrow> dropWhile P (xs @ a # ys) = dropWhile P xs @ a # ys"
  by (induction xs) auto

lemma takeWhile_append_stop:
  "\<not> P a \<Longrightarrow> takeWhile P (xs @ a # ys) = takeWhile P xs"
  by (induction xs) auto

lemma dropWhile_append_nonempty:
  "dropWhile P xs \<noteq> [] \<Longrightarrow> dropWhile P (xs @ ys) = dropWhile P xs @ ys"
  by (induction xs) auto

lemma parseInt_append:
  assumes "parseInt u 10 = Some y" and "\<not> digit_val c < 10"
  shows "parseInt (u @ c # v) 10 = Some y"
proof -
  let ?S = "dropWhile is_ws u"
  have ne: "?S \<noteq> []"
  proof
    assume "?S = []"
    then have "parseInt u 10 = None" by (simp add: parseInt_10 del: dropWhile_eq_Nil_conv)
    with assms(1) show False by simp
  qed
  then have d: "dropWhile is_ws (u @ c # v) = ?S @ c # v"
    by (rule dropWhile_append_nonempty)
  from ne have h: "hd (?S @ c # v) = hd ?S" by simp
  from ne have t: "tl (?S @ c # v) = tl ?S @ c # v" by simp
  have "parseInt (u @ c # v) 10 = parseInt u 10"
    unfolding parseInt_10 d Let_def h t
    using ne assms(2) by (simp add: takeWhile_append_stop)
  with assms(1) show ?thesis by simp
qed

lemma trim_split:
  assumes "CHR ''/'' \<in> set s" and "trim (split_slash_first s) \<noteq> []"
  shows "\<exists>c v. trim s = trim (split_slash_first s) @ c # v \<and> \<not> digit_val c < 10"
proof -
  let ?p = "split_slash_first s"
  let ?y = "dropWhile is_ws ?p"
  from assms(1) have "dropWhile (\<lambda>c. c \<noteq> CHR ''/'') s \<noteq> []"
    by (simp add: dropWhile_eq_Nil_conv)
  moreover from this have "hd (dropWhile (\<lambda>c. c \<noteq> CHR ''/'') s) = CHR ''/''"
    using hd_dropWhile[of "\<lambda>c. c \<noteq> CHR ''/''" s] by simp
  ultimately obtain r where "dropWhile (\<lambda>c. c \<noteq> CHR ''/'') s = CHR ''/'' # r"
    by (cases "dropWhile (\<lambda>c. c \<noteq> CHR ''/'') s") auto
  then have s: "s = ?p @ CHR ''/'' # r"
    using takeWhile_dropWhile_id[of "\<lambda>c. c \<noteq> CHR ''/''" s]
    by (simp add: split_slash_first_def)
  have y: "?y \<noteq> []"
  proof
    assume "?y = []"
    then have "trim ?p = []" by (simp add: trim_def del: dropWhile_eq_Nil_conv)
    with assms(2) show False by simp
  qed
  have tp: "trim ?p = rev (dropWhile is_ws (rev ?y))" by (simp add: trim_def)
  let ?w = "rev (takeWhile is_ws (rev ?y))"
  have yw: "?y = trim ?p @ ?w"
  proof -
    have "?y = rev (takeWhile is_ws (rev ?y) @ dropWhile is_ws (rev ?y))"
      by (simp only: takeWhile_dropWhile_id rev_rev_ident)
    also have "\<dots> = rev (dropWhile is_ws (rev ?y)) @ rev (takeWhile is_ws (rev ?y))"
      by (simp only: rev_append)
    finally show ?thesis by (simp only: tp)
  qed
  have ws: "\<forall>c \<in> set ?w. is_ws c"
    by (auto dest: set_takeWhileD)
  have d1: "dropWhile is_ws s = ?y @ CHR ''/'' # r"
    by (subst s) (rule dropWhile_append_nonempty[OF y])
  let ?z = "dropWhile is_ws (rev r)"
  have "trim s = rev (dropWhile is_ws (rev r @ CHR ''/'' # rev ?y))"
    by (simp add: trim_def d1)
  also have "\<dots> = rev (?z @ CHR ''/'' # rev ?y)"
    by (simp add: dropWhile_append_stop slash_digit_val)
  also have "\<dots> = ?y @ CHR ''/'' # rev ?z" by simp
  finally have ts: "trim s = trim ?p @ (?w @ CHR ''/'' # rev ?z)"
    using yw by (metis append.assoc)
  show ?thesis
  proof (cases ?w)
    case Nil
    with ts have "trim s = trim ?p @ CHR ''/'' # rev ?z" by simp
    then show ?thesis using slash_digit_val by auto
  next
    case (Cons c w')
    with ws have "is_ws c" by simp
    then have "\<not> digit_val c < 10" by (simp add: is_ws_digit_val)
    moreover from ts Cons have "trim s = trim ?p @ c # (w' @ CHR ''/'' # rev ?z)" by simp
    ultimately show ?thesis by blast
  qed
qed

lemma or_parse_fallback:
  "or_parse (parseInt (trim (split_slash_first s)) 10) (parseInt (trim s) 10) =
     (case parseInt (trim (split_slash_first s)) 10 of
        Some y \<Rightarrow> Some y
      | None \<Rightarrow> parseInt (trim s) 10)"
proof (cases "CHR ''/'' \<in> set s")
  case False
  then have "split_slash_first s = s"
    by (auto simp: split_slash_first_def takeWhile_eq_all_conv)
  then show ?thesis by (simp add: or_parse_def split: option.splits)
next
  case True
  show ?thesis
  proof (cases "parseInt (trim (split_slash_first s)) 10")
    case None
    then show ?thesis by (simp add: or_parse_def)
  next
    case (Some y)
    then have "trim (split_slash_first s) \<noteq> []"
      by (auto simp: parseInt_empty)
    from trim_split[OF True this] obtain c v where
      "trim s = trim (split_slash_first s) @ c # v" "\<not> digit_val c < 10" by blast
    with parseInt_append[OF Some] have "parseInt (trim s) 10 = Some y" by simp
    with Some show ?thesis by (simp add: or_parse_def)
  qed
qed

lemma digit_not_ws: "digit_val c < 10 \<Longrightarrow> \<not> is_ws c"
  using is_ws_digit_val[of c] by auto

lemma sign_not_ws: "\<not> is_ws CHR ''+''" "\<not> is_ws CHR ''-''"
  by (simp_all add: is_ws_def)

lemma integer_string_parses:
  assumes "is_integer_string year"
  shows "parseInt year 10 \<noteq> None"
proof (cases year)
  case Nil
  with assms show ?thesis by (simp add: is_integer_string_def)
next
  case (Cons c cs)
  show ?thesis
  proof (cases "c = CHR ''+'' \<or> c = CHR ''-''")
    case True
    with assms Cons obtain d ds where cs: "cs = d # ds" and d: "digit_val d < 10"
      by (cases cs) (auto simp: is_integer_string_def)
    from True have "\<not> is_ws c" using sign_not_ws by auto
    with Cons cs True d show ?thesis by (auto simp: parseInt_10 Let_def)
  next
    case False
    with assms Cons have d: "digit_val c < 10" by (simp add: is_integer_string_def)
    from digit_not_ws[OF d] Cons False d show ?thesis by (auto simp: parseInt_10 Let_def)
  qed
qed

lemma parseInt_skip_ws: "parseInt (dropWhile is_ws s) r = parseInt s r"
  by (simp add: parseInt_def)

lemma parseInt_append_eq:
  assumes ne: "dropWhile is_ws u \<noteq> []" and c: "\<not> digit_val c < 10"
  shows "parseInt (u @ c # v) 10 = parseInt u 10"
proof -
  let ?S = "dropWhile is_ws u"
  from ne have d: "dropWhile is_ws (u @ c # v) = ?S @ c # v"
    by (rule dropWhile_append_nonempty)
  from ne have h: "hd (?S @ c # v) = hd ?S" by simp
  from ne have t: "tl (?S @ c # v) = tl ?S @ c # v" by simp
  show ?thesis
    unfolding parseInt_10 d Let_def h t
    using ne c by (simp add: takeWhile_append_stop)
qed

lemma parseInt_trim: "parseInt (trim s) 10 = parseInt s 10"
proof -
  let ?y = "dropWhile is_ws s"
  let ?t = "rev (dropWhile is_ws (rev ?y))"
  let ?w = "rev (takeWhile is_ws (rev ?y))"
  have tr: "trim s = ?t" by (simp add: trim_def)
  have yw: "?y = ?t @ ?w"
  proof -
    have "?y = rev (takeWhile is_ws (rev ?y) @ dropWhile is_ws (rev ?y))"
      by (simp only: takeWhile_dropWhile_id rev_rev_ident)
    then show ?thesis by (simp only: rev_append)
  qed
  have ws: "\<forall>c \<in> set ?w. is_ws c" by (auto dest: set_takeWhileD)
  show ?thesis
  proof (cases ?w)
    case Nil
    with yw have "?y = ?t" by simp
    with tr parseInt_skip_ws[of s 10] show ?thesis by simp
  next
    case (Cons c w')
    with ws have wc: "is_ws c" by simp
    then have nd: "\<not> digit_val c < 10" by (simp add: is_ws_digit_val)
    from yw Cons have y: "?y = ?t @ c # w'" by simp
    then have yne: "?y \<noteq> []" by (metis Nil_is_append_conv list.distinct(1))
    then have hy: "\<not> is_ws (hd ?y)" by (rule hd_dropWhile)
    have tne: "?t \<noteq> []"
    proof
      assume "?t = []"
      with y have "hd ?y = c" by simp
      with hy wc show False by simp
    qed
    with y have "hd ?t = hd ?y" by (metis hd_append2)
    with hy tne have "dropWhile is_ws ?t = ?t" by (cases ?t) simp_all
    with tne have "dropWhile is_ws ?t \<noteq> []" by simp
    from parseInt_append_eq[OF this nd, of w'] y
    have "parseInt ?y 10 = parseInt ?t 10" by simp
    with tr parseInt_skip_ws[of s 10] show ?thesis by simp
  qed
qed

lemma parseInt_whole:
  assumes "parseInt (trim (split_slash_first s)) 10 = Some y"
  shows "parseInt (trim s) 10 = Some y"
proof (cases "CHR ''/'' \<in> set s")
  case False
  then have "split_slash_first s = s"
    by (auto simp: split_slash_first_def takeWhile_eq_all_conv)
  with assms show ?thesis by simp
next
  case True
  from assms have "trim (split_slash_first s) \<noteq> []"
    by (auto simp: parseInt_empty)
  from trim_split[OF True this] obtain c v where
    "trim s = trim (split_slash_first s) @ c # v" "\<not> digit_val c < 10" by blast
  with parseInt_append[OF assms] show ?thesis by simp
qed

section \<open>Normalised years\<close>

lemma normalizeYear_raises:
  "(\<exists>e. normalizeYear ns v = Inl e) \<longleftrightarrow> (\<exists>e. to_string ns v = Inl e)"
proof (cases v)
  case (JNum n)
  then show ?thesis by (cases n) (simp_all add: normalizeYear_def parseInt_js_def Let_def)
next
  case (JStr s)
  then show ?thesis by (simp add: normalizeYear_def Let_def)
next
  case (JArr xs)
  then show ?thesis
    by (cases "join_elements ns xs") (simp_all add: normalizeYear_def parseInt_js_def Let_def)
next
  case (JObj fs)
  then show ?thesis by (simp add: normalizeYear_def parseInt_js_def Let_def)
qed (simp_all add: normalizeYear_def parseInt_js_def Let_def)

lemma normalizeYear_other:
  "other_type v \<Longrightarrow>
     normalizeYear ns v =
       (case to_string ns v of Inl e \<Rightarrow> Inl e | Inr t \<Rightarrow> Inr (nan_to_null (parseInt t 10)))"
proof (cases v)
  case (JNum n)
  then show "other_type v \<Longrightarrow> ?thesis"
    by (cases n) (simp_all add: other_type_def normalizeYear_def parseInt_js_def Let_def)
qed (simp_all add: other_type_def normalizeYear_def parseInt_js_def Let_def split: sum.splits)

lemma normalizeYear_result:
  "normalizeYear ns v = Inr r \<Longrightarrow>
     r = JNull \<or> (\<exists>n. r = int_val n) \<or> r = JNum PosInfinity \<or> r = JNum NegInfinity"
proof (cases v)
  case (JNum n)
  then show "normalizeYear ns v = Inr r \<Longrightarrow> ?thesis"
    using nan_to_null_cases[of "parseInt ''NaN'' 10"]
    by (cases n) (auto simp: normalizeYear_def parseInt_js_def int_val_def Let_def)
next
  case (JStr s)
  then show "normalizeYear ns v = Inr r \<Longrightarrow> ?thesis"
    using nan_to_null_cases[of "or_parse (parseInt (trim (split_slash_first s)) 10)
                                  (parseInt (trim s) 10)"]
    by (auto simp: normalizeYear_def Let_def split: if_splits)
next
  case (JBool b)
  then show "normalizeYear ns v = Inr r \<Longrightarrow> ?thesis"
    using nan_to_null_cases[of "parseInt (if b then ''true'' else ''false'') 10"]
    by (auto simp: normalizeYear_def parseInt_js_def Let_def)
next
  case (JArr xs)
  then show "normalizeYear ns v = Inr r \<Longrightarrow> ?thesis"
    using nan_to_null_cases
    by (auto simp: normalizeYear_def parseInt_js_def Let_def split: sum.splits)
next
  case (JObj fs)
  then show "normalizeYear ns v = Inr r \<Longrightarrow> ?thesis"
    using nan_to_null_cases
    by (auto simp: normalizeYear_def parseInt_js_def Let_def split: sum.splits if_splits)
qed (auto simp: normalizeYear_def Let_def)

lemma normalizeYear_example: "normalizeYear ns (JStr ''2023/05'') = Inr (int_val 2023)"
  by (simp add: normalizeYear_def trim_def split_slash_first_def is_ws_def parseInt_10
        digit_val_def or_parse_def nan_to_null_small)

lemma normalizeYear_fixed:
  "normalizeYear ns JNull = Inr JNull" "normalizeYear ns (int_val n) = Inr (int_val n)"
  "normalizeYear ns (JNum PosInfinity) = Inr (JNum PosInfinity)"
  "normalizeYear ns (JNum NegInfinity) = Inr (JNum NegInfinity)"
  by (simp_all add: normalizeYear_def int_val_def Let_def)

lemma normalizeYear_idem: "normalizeYear ns v = Inr r \<Longrightarrow> normalizeYear ns r = Inr r"
  using normalizeYear_result[of ns v r] by (auto simp: normalizeYear_fixed)

lemma to_string_raises:
  "(\<exists>e. to_string ns v = Inl e) \<longleftrightarrow> unprintable v"
  "(\<exists>e. join_elements ns xs = Inl e) \<longleftrightarrow> (\<exists>x \<in> set xs. unprintable x)"
proof (induction ns v and ns xs rule: to_string_join_elements.induct)
  case (9 ns x xs)
  show ?case
  proof (cases "x = JNull \<or> x = JUndefined")
    case True
    then have u: "\<not> unprintable x" by auto
    show ?thesis
    proof (cases "xs = []")
      case e: True
      with True u show ?thesis by auto
    next
      case False
      with 9(2)[of "[]"] True have "(\<exists>e. join_elements ns xs = Inl e) \<longleftrightarrow> (\<exists>x \<in> set xs. unprintable x)"
        by auto
      with True u False show ?thesis by (auto split: sum.splits)
    qed
  next
    case nn: False
    with 9(1) have h: "(\<exists>e. to_string ns x = Inl e) \<longleftrightarrow> unprintable x" by simp
    show ?thesis
    proof (cases "to_string ns x")
      case (Inl e)
      with nn h show ?thesis by auto
    next
      case (Inr s)
      with h have u: "\<not> unprintable x" by auto
      show ?thesis
      proof (cases "xs = []")
        case True
        with nn Inr u show ?thesis by auto
      next
        case False
        with 9(2)[of s] nn Inr
        have "(\<exists>e. join_elements ns xs = Inl e) \<longleftrightarrow> (\<exists>x \<in> set xs. unprintable x)" by auto
        with nn Inr u False show ?thesis by (auto split: sum.splits)
      qed
    qed
  qed
qed auto

lemma to_string_TypeError:
  "to_string ns v = Inl e \<Longrightarrow> e = TypeError"
  "join_elements ns xs = Inl e \<Longrightarrow> e = TypeError"
  by (induction ns v and ns xs rule: to_string_join_elements.induct)
    (auto split: sum.splits if_splits)

lemma normalizeYear_unprintable: "(\<exists>e. normalizeYear ns v = Inl e) \<longleftrightarrow> unprintable v"
  by (simp add: normalizeYear_raises to_string_raises)

lemma normalizeYear_TypeError: "normalizeYear ns v = Inl e \<Longrightarrow> e = TypeError"
  by (cases v)
    (auto simp: normalizeYear_def parseInt_js_def Let_def dest: to_string_TypeError
      split: sum.splits if_splits jsnum.splits)

lemma getPubYear_TypeError: "getPubYear ns p = Inl e \<Longrightarrow> e = TypeError"
  by (cases p) (auto simp: getPubYear_def dest: normalizeYear_TypeError split: sum.splits)

lemma getPubYear_unprintable:
  "is_record p \<Longrightarrow> (\<exists>e. getPubYear ns p = Inl e) \<longleftrightarrow> unprintable (year_of p)"
  using normalizeYear_unprintable[of ns "year_of p"]
  by (cases p) (auto simp: getPubYear_def year_of_def is_record_def)

lemma filterByYear_raises:
  "(\<exists>e. filterByYear ns fy pubs = Inl e) \<longleftrightarrow> (\<exists>p \<in> set pubs. \<exists>e. getPubYear ns p = Inl e)"
  by (induction pubs) (auto split: sum.splits)

lemma filterByYear_TypeError: "filterByYear ns fy pubs = Inl e \<Longrightarrow> e = TypeError"
  by (induction pubs) (auto dest: getPubYear_TypeError split: sum.splits)

section \<open>The year filter and the quarterly counts\<close>

lemma getPubYear_is_record: "getPubYear ns p = Inr y \<Longrightarrow> is_record p"
  by (cases p) (auto simp: getPubYear_def is_record_def)

lemma filterByYear_sel:
  "filterByYear ns fy pubs = Inr sel \<Longrightarrow>
     sel = filter (\<lambda>p. getPubYear ns p = Inr (JNum fy)) pubs"
  by (induction pubs arbitrary: sel) (auto split: sum.splits if_splits)

lemma filterPublications_sel:
  "filterPublications ns fy pubs = Inr sel \<Longrightarrow>
     sel = filter (\<lambda>p. getPubYear ns p = Inr (int_val fy)) pubs"
  unfolding filterPublications_def int_val_def by (rule filterByYear_sel)

lemma filterByYear_records:
  "filterByYear ns fy pubs = Inr sel \<Longrightarrow> list_all is_record sel"
  by (auto simp: list_all_iff dest!: filterByYear_sel intro: getPubYear_is_record)

lemma filterPublications_records:
  "filterPublications ns fy pubs = Inr sel \<Longrightarrow> list_all is_record sel"
  unfolding filterPublications_def by (rule filterByYear_records)

lemma filterPublications_example: "filterPublications ns 2023 example_records = Inr example_records"
  by (simp add: filterPublications_def example_records_def getPubYear_def normalizeYear_def
        int_val_def)

lemma nan_to_null_int:
  "nan_to_null x = int_val n \<longleftrightarrow>
     (case x of None \<Rightarrow> None
      | Some i \<Rightarrow> (case to_number i of Fin q \<Rightarrow> Some \<lfloor>q\<rfloor> | _ \<Rightarrow> None)) = Some n"
proof (cases x)
  case None
  then show ?thesis by (simp add: nan_to_null_def int_val_def)
next
  case (Some i)
  show ?thesis
  proof (cases "to_number i")
    case (Fin q)
    from to_number_integral[OF Fin] have "q = of_int \<lfloor>q\<rfloor>" .
    then have "q = of_int n \<longleftrightarrow> \<lfloor>q\<rfloor> = n" by (metis floor_of_int)
    with Some Fin show ?thesis by (simp add: nan_to_null_def int_val_def)
  qed (use Some in \<open>simp_all add: nan_to_null_def int_val_def\<close>)
qed

lemma parse_integer_iff: "nan_to_null (parseInt t 10) = int_val n \<longleftrightarrow> parse_integer t = Some n"
  by (simp add: nan_to_null_int parse_integer_def)

lemma parse_integer_none:
  "parse_integer ''NaN'' = None" "parse_integer ''Infinity'' = None"
  "parse_integer ''-Infinity'' = None"
  by (simp_all add: parse_integer_def parseInt_10 is_ws_def digit_val_def)

lemma normalizeYear_refines:
  assumes "normalizeYear ns v = Inr r"
  shows "r = int_val n \<longleftrightarrow> normalizeYear_spec ns v = Some n"
proof (cases v)
  case JUndefined
  with assms show ?thesis by (auto simp: normalizeYear_def int_val_def)
next
  case JNull
  with assms show ?thesis by (auto simp: normalizeYear_def int_val_def)
next
  case (JBool b)
  with assms have "r = nan_to_null (parseInt (if b then ''true'' else ''false'') 10)"
    by (auto simp: normalizeYear_def parseInt_js_def Let_def)
  with JBool show ?thesis by (simp add: parse_integer_iff)
next
  case (JNum x)
  show ?thesis
  proof (cases x)
    case NaN
    with JNum assms have "r = nan_to_null (parseInt ''NaN'' 10)"
      by (auto simp: normalizeYear_def parseInt_js_def Let_def)
    with JNum NaN show ?thesis by (simp add: parse_integer_iff)
  next
    case PosInfinity
    with JNum assms have "r = JNum PosInfinity"
      by (auto simp: normalizeYear_def Let_def)
    with JNum PosInfinity show ?thesis by (simp add: parse_integer_none int_val_def)
  next
    case NegInfinity
    with JNum assms have "r = JNum NegInfinity"
      by (auto simp: normalizeYear_def Let_def)
    with JNum NegInfinity show ?thesis by (simp add: parse_integer_none int_val_def)
  next
    case (Fin q)
    with JNum assms have "r = JNum (Fin (of_int \<lfloor>q\<rfloor>))"
      by (auto simp: normalizeYear_def Let_def)
    with JNum Fin show ?thesis by (simp add: int_val_def)
  qed
next
  case (JStr s)
  show ?thesis
  proof (cases "s = []")
    case True
    with JStr assms show ?thesis by (auto simp: normalizeYear_def int_val_def)
  next
    case ne: False
    let ?a = "parseInt (trim (split_slash_first s)) 10" and ?b = "parseInt (trim s) 10"
    from JStr ne assms have r: "r = nan_to_null (case ?a of Some y \<Rightarrow> Some y | None \<Rightarrow> ?b)"
      by (auto simp: normalizeYear_def Let_def or_parse_fallback)
    show ?thesis
    proof (cases "CHR ''/'' \<in> set s")
      case False
      then have "split_slash_first s = s"
        by (auto simp: split_slash_first_def takeWhile_eq_all_conv)
      with r have "r = nan_to_null (parseInt s 10)"
        by (simp add: parseInt_trim split: option.splits)
      with JStr ne False show ?thesis by (simp add: parse_integer_iff)
    next
      case True
      show ?thesis
      proof (cases ?a)
        case None
        with r have "r = nan_to_null ?b" by simp
        moreover from None have "parse_integer (trim (split_slash_first s)) = None"
          by (simp add: parse_integer_def)
        ultimately show ?thesis using JStr ne True
          by (simp add: parse_integer_iff split_slash_first_def)
      next
        case (Some y)
        from parseInt_whole[OF Some] have b: "?b = Some y" .
        from r Some have "r = nan_to_null ?a" by simp
        then have 1: "r = int_val n \<longleftrightarrow> parse_integer (trim (split_slash_first s)) = Some n"
          by (simp add: parse_integer_iff)
        from Some b have 2: "parse_integer (trim s) = parse_integer (trim (split_slash_first s))"
          by (simp add: parse_integer_def)
        from JStr ne True 1 2 show ?thesis
          by (simp add: split_slash_first_def split: option.splits)
      qed
    qed
  qed
next
  case (JArr xs)
  with assms show ?thesis
    by (auto simp: normalizeYear_def parseInt_js_def Let_def parse_integer_iff split: sum.splits)
next
  case (JObj fs)
  with assms show ?thesis
    by (auto simp: normalizeYear_def parseInt_js_def Let_def parse_integer_iff
          split: sum.splits if_splits)
qed

lemma getPubYear_refines:
  assumes "getPubYear ns p = Inr r"
  shows "r = int_val n \<longleftrightarrow> normalizeYear_spec ns (year_of p) = Some n"
proof -
  from assms obtain y where "get_prop p ''year'' = Inr y" "normalizeYear ns y = Inr r"
    by (auto simp: getPubYear_def split: sum.splits)
  then show ?thesis using normalizeYear_refines[of ns y r n] by (simp add: year_of_def)
qed

lemma filterByYear_total:
  "filterByYear ns fy pubs = Inr sel \<Longrightarrow> p \<in> set pubs \<Longrightarrow> \<exists>r. getPubYear ns p = Inr r"
  by (induction pubs arbitrary: sel) (auto split: sum.splits)

lemma filterPublications_spec:
  assumes "filterPublications ns fy pubs = Inr sel"
  shows "sel = filter (\<lambda>p. normalizeYear_spec ns (year_of p) = Some fy) pubs"
proof -
  from assms have f: "filterByYear ns (Fin (of_int fy)) pubs = Inr sel"
    by (simp add: filterPublications_def)
  have "filter (\<lambda>p. getPubYear ns p = Inr (int_val fy)) pubs =
        filter (\<lambda>p. normalizeYear_spec ns (year_of p) = Some fy) pubs"
  proof (rule filter_cong[OF refl])
    fix p assume "p \<in> set pubs"
    from filterByYear_total[OF f this] obtain r where g: "getPubYear ns p = Inr r" by blast
    from getPubYear_refines[OF g, of fy] g
    show "(getPubYear ns p = Inr (int_val fy)) = (normalizeYear_spec ns (year_of p) = Some fy)"
      by auto
  qed
  with filterPublications_sel[OF assms] show ?thesis by simp
qed

lemma parseInt_js_small:
  "parseInt_js ns (JNum (Fin 1)) 0 = Inr (Some 1)" "parseInt_js ns (JNum (Fin 4)) 0 = Inr (Some 4)"
  by (simp_all add: parseInt_js_def int_to_string_def nat_digits.simps digit_char_def
        parseInt_def is_ws_def digit_val_def)

lemma month_step_example:
  "month_step ns cur cq (JObj [(''year'', int_val 2023), (''month'', int_val 1)]) st =
     (None, if \<not> cur \<or> 1 \<le> cq then count_quarter 1 st else st)"
  "month_step ns cur cq (JObj [(''year'', int_val 2023), (''month'', int_val 4)]) st =
     (None, if \<not> cur \<or> 2 \<le> cq then count_quarter 2 st else st)"
  "month_step ns cur cq (JObj [(''year'', int_val 2023), (''month'', JNull)]) st =
     (None, without_month cur ''Publication missing month:'' st)"
  by (simp_all add: month_step_def int_val_def parseInt_js_small pubQuarter_of_def)

lemma quarterly_example_past:
  "computeQuarterly ns example_records 2023 2024 nowMonth =
     (None,
      \<lparr>q1 = 1, q2 = 1, q3 = 0, q4 = 0, publicationsWithoutMonth = 1,
       publicationsCountedInTotal = 3,
       console = [ConsoleWarn ''Publication missing month:'']\<rparr>, 3)"
  by (simp add: example_records_def computeQuarterly_def quarterlyCounts_def month_step_example
        qstate0_def count_quarter_def without_month_def)

lemma quarterly_example_current:
  "computeQuarterly ns example_records 2023 2023 2 =
     (None,
      \<lparr>q1 = 1, q2 = 0, q3 = 0, q4 = 0, publicationsWithoutMonth = 1,
       publicationsCountedInTotal = 1,
       console = [ConsoleWarn ''Publication missing month:'']\<rparr>, 1)"
  by (simp add: example_records_def computeQuarterly_def quarterlyCounts_def month_step_example
        qstate0_def count_quarter_def without_month_def currentQuarter_of_def)

lemma quarterlyCounts_result:
  assumes "list_all is_record sel"
  shows "\<exists>st. quarterlyCounts ns sel fy cy cm =
             (None, st, if fy = Fin (of_int cy) then publicationsCountedInTotal st
                        else length sel) \<and>
           q1 st = length (filter (\<lambda>p. tallied ns (fy = Fin (of_int cy)) (currentQuarter_of cm) p = Some 1) sel) \<and>
           q2 st = length (filter (\<lambda>p. tallied ns (fy = Fin (of_int cy)) (currentQuarter_of cm) p = Some 2) sel) \<and>
           q3 st = length (filter (\<lambda>p. tallied ns (fy = Fin (of_int cy)) (currentQuarter_of cm) p = Some 3) sel) \<and>
           q4 st = length (filter (\<lambda>p. tallied ns (fy = Fin (of_int cy)) (currentQuarter_of cm) p = Some 4) sel) \<and>
           publicationsWithoutMonth st = length (filter (\<lambda>p. record_quarter ns p = None) sel) \<and>
           publicationsCountedInTotal st =
             length (filter (counts_as ns (fy = Fin (of_int cy)) (currentQuarter_of cm)) sel) \<and>
           (fy \<noteq> Fin (of_int cy) \<longrightarrow> qsum st + publicationsWithoutMonth st = length sel) \<and>
           (fy = Fin (of_int cy) \<longrightarrow> qsum st = publicationsCountedInTotal st) \<and>
           ConsoleWarn quarterly_mismatch \<notin> set (console st)"
proof -
  let ?cur = "fy = Fin (of_int cy)" and ?cq = "currentQuarter_of cm"
  from assms have r: "\<forall>p \<in> set sel. is_record p" by (simp add: list_all_iff)
  from month_loop_fields[OF r, of ns ?cur ?cq qstate0]
  obtain st where l: "month_loop ns ?cur ?cq sel qstate0 = (None, st)"
    and f: "q1 st = length (filter (\<lambda>p. tallied ns ?cur ?cq p = Some 1) sel)"
      "q2 st = length (filter (\<lambda>p. tallied ns ?cur ?cq p = Some 2) sel)"
      "q3 st = length (filter (\<lambda>p. tallied ns ?cur ?cq p = Some 3) sel)"
      "q4 st = length (filter (\<lambda>p. tallied ns ?cur ?cq p = Some 4) sel)"
      "publicationsWithoutMonth st = length (filter (\<lambda>p. record_quarter ns p = None) sel)"
      "publicationsCountedInTotal st = length (filter (counts_as ns ?cur ?cq) sel)"
    by (auto simp: qstate0_def)
  from month_loop_sums[OF assms, of ns ?cur ?cq qstate0] l
  have s: "\<not> ?cur \<longrightarrow> qsum st + publicationsWithoutMonth st = length sel"
    "?cur \<longrightarrow> qsum st = publicationsCountedInTotal st"
    "ConsoleWarn quarterly_mismatch \<notin> set (console st)"
    by (auto simp: qstate0_def qsum_def)
  have "quarterlyCounts ns sel fy cy cm =
          (None, st, if ?cur then publicationsCountedInTotal st else length sel)"
    using l s by (auto simp: quarterlyCounts_def Let_def qsum_def)
  then show ?thesis using f s by blast
qed

lemma computeQuarterly_result:
  assumes "list_all is_record sel"
  shows "\<exists>st. computeQuarterly ns sel fy cy cm =
             (None, st, if fy = cy then publicationsCountedInTotal st else length sel) \<and>
           q1 st = length (filter (\<lambda>p. tallied ns (fy = cy) (currentQuarter_of cm) p = Some 1) sel) \<and>
           q2 st = length (filter (\<lambda>p. tallied ns (fy = cy) (currentQuarter_of cm) p = Some 2) sel) \<and>
           q3 st = length (filter (\<lambda>p. tallied ns (fy = cy) (currentQuarter_of cm) p = Some 3) sel) \<and>
           q4 st = length (filter (\<lambda>p. tallied ns (fy = cy) (currentQuarter_of cm) p = Some 4) sel) \<and>
           publicationsWithoutMonth st = length (filter (\<lambda>p. record_quarter ns p = None) sel) \<and>
           publicationsCountedInTotal st =
             length (filter (counts_as ns (fy = cy) (currentQuarter_of cm)) sel) \<and>
           (fy \<noteq> cy \<longrightarrow> qsum st + publicationsWithoutMonth st = length sel) \<and>
           (fy = cy \<longrightarrow> qsum st = publicationsCountedInTotal st) \<and>
           ConsoleWarn quarterly_mismatch \<notin> set (console st)"
  using quarterlyCounts_result[OF assms, of ns "Fin (of_int fy)" cy cm]
  by (simp add: computeQuarterly_def)

lemma floor_half: "\<lfloor>4047 / 2 :: rat\<rfloor> = 2023"
  by (simp add: floor_eq_iff)

lemma getPubYear_mixed:
  "getPubYear ns (JObj [(''year'', JStr ''2023''), (''month'', int_val 1)]) = Inr (int_val 2023)"
  "getPubYear ns (JObj [(''year'', JStr ''2023/05''), (''month'', JStr ''4'')]) = Inr (int_val 2023)"
  "getPubYear ns (JObj [(''year'', JNum (Fin (4047 / 2))), (''month'', JNull)]) = Inr (int_val 2023)"
  "getPubYear ns (JObj [(''year'', JStr ''n/a''), (''month'', int_val 1)]) = Inr JNull"
  "getPubYear ns (JObj [(''year'', JNull), (''month'', int_val 1)]) = Inr JNull"
  "getPubYear ns (JObj [(''year'', int_val 2024), (''month'', int_val 1)]) = Inr (int_val 2024)"
  "getPubYear ns (JObj [(''month'', int_val 1)]) = Inr JNull"
proof -
  show "getPubYear ns (JObj [(''year'', JStr ''2023''), (''month'', int_val 1)]) = Inr (int_val 2023)"
    by (simp add: getPubYear_def normalizeYear_def trim_def split_slash_first_def is_ws_def
          parseInt_10 digit_val_def or_parse_def nan_to_null_small)
  show "getPubYear ns (JObj [(''year'', JStr ''2023/05''), (''month'', JStr ''4'')]) = Inr (int_val 2023)"
    by (simp add: getPubYear_def normalizeYear_example)
  show "getPubYear ns (JObj [(''year'', JNum (Fin (4047 / 2))), (''month'', JNull)]) = Inr (int_val 2023)"
    by (simp add: getPubYear_def normalizeYear_def floor_half int_val_def)
  show "getPubYear ns (JObj [(''year'', JStr ''n/a''), (''month'', int_val 1)]) = Inr JNull"
    by (simp add: getPubYear_def normalizeYear_def trim_def split_slash_first_def is_ws_def
          parseInt_10 digit_val_def or_parse_def nan_to_null_small)
  show "getPubYear ns (JObj [(''year'', JNull), (''month'', int_val 1)]) = Inr JNull"
    by (simp add: getPubYear_def normalizeYear_def)
  show "getPubYear ns (JObj [(''year'', int_val 2024), (''month'', int_val 1)]) = Inr (int_val 2024)"
    by (simp add: getPubYear_def normalizeYear_def int_val_def)
  show "getPubYear ns (JObj [(''month'', int_val 1)]) = Inr JNull"
    by (simp add: getPubYear_def normalizeYear_def)
qed

lemma mixed_year_filter: "filterPublications ns 2023 mixed_year_records = Inr year_2023_records"
proof -
  have n: "int_val 2023 = JNum (Fin 2023)" "int_val 2024 \<noteq> JNum (Fin 2023)"
    by (simp_all add: int_val_def)
  show ?thesis
    by (simp add: filterPublications_def mixed_year_records_def year_2023_records_def
          getPubYear_mixed n)
qed

lemma mixed_year_spec:
  "map (\<lambda>p. normalizeYear_spec ns (year_of p)) mixed_year_records =
     [Some 2023, Some 2023, Some 2023, None, None, Some 2024, None]"
  by (simp add: mixed_year_records_def year_of_def parse_integer_def trim_def is_ws_def
        parseInt_10 digit_val_def to_number_small floor_half int_val_def)

lemma mixed_year_quarterly:
  "computeQuarterly ns year_2023_records 2023 2024 nowMonth =
     (None,
      \<lparr>q1 = 1, q2 = 1, q3 = 0, q4 = 0, publicationsWithoutMonth = 1,
       publicationsCountedInTotal = 3,
       console = [ConsoleWarn ''Publication missing month:'']\<rparr>, 3)"
proof -
  have p: "parseInt_js ns (JStr ''4'') 0 = Inr (Some 4)"
    by (simp add: parseInt_js_def parseInt_def is_ws_def digit_val_def)
  have m: "month_step ns False cq (JObj [(''year'', JStr ''2023''), (''month'', int_val 1)]) st =
             (None, count_quarter 1 st)"
    "month_step ns False cq (JObj [(''year'', JStr ''2023/05''), (''month'', JStr ''4'')]) st =
             (None, count_quarter 2 st)"
    "month_step ns False cq (JObj [(''year'', JNum (Fin (4047 / 2))), (''month'', JNull)]) st =
             (None, without_month False ''Publication missing month:'' st)" for cq st
    by (simp_all add: month_step_def int_val_def parseInt_js_small p pubQuarter_of_def)
  show ?thesis
    by (simp add: year_2023_records_def computeQuarterly_def quarterlyCounts_def m
          qstate0_def count_quarter_def without_month_def)
qed

lemma to_number_late: "to_number 9007199254740993 = Fin 9007199254740992"
proof -
  have b: "bitlen 9007199254740993 = 54" by (simp add: bitlen.simps)
  have r: "round_nat 9007199254740993 = 9007199254740992"
    by (simp add: round_nat_def b Let_def)
  have "\<not> (2::nat) ^ 1024 \<le> 9007199254740992" by simp
  with r show ?thesis by (simp add: to_number_def Let_def)
qed

lemma late_year_filter:
  "filterPublications ns 9007199254740992 [late_year_record] = Inr [late_year_record]"
  "normalizeYear_spec ns (year_of late_year_record) = Some 9007199254740992"
proof -
  have p: "parseInt ''9007199254740993'' 10 = Some 9007199254740993"
    by (simp add: parseInt_10 is_ws_def digit_val_def)
  have t: "trim ''9007199254740993'' = ''9007199254740993''"
    "split_slash_first ''9007199254740993'' = ''9007199254740993''"
    by (simp_all add: trim_def split_slash_first_def is_ws_def)
  have g: "getPubYear ns late_year_record = Inr (JNum (Fin 9007199254740992))"
    by (simp add: late_year_record_def getPubYear_def normalizeYear_def t p or_parse_def
          nan_to_null_def to_number_late)
  show "filterPublications ns 9007199254740992 [late_year_record] = Inr [late_year_record]"
    by (simp add: filterPublications_def g)
  have "year_of late_year_record = JStr ''9007199254740993''"
    by (simp add: late_year_record_def year_of_def)
  then show "normalizeYear_spec ns (year_of late_year_record) = Some 9007199254740992"
    by (simp add: parse_integer_def p to_number_late)
qed

section \<open>The quarterly aggregation\<close>

text \<open>
  Claim C9. For every list of records the month loop runs on and every filter year,
  the loop ends without an exception; when the filter year is not the current year,
  \<^verbatim>\<open>q1 + q2 + q3 + q4\<close> plus \<^verbatim>\<open>publicationsWithoutMonth\<close> equals
  \<^verbatim>\<open>total_publications\<close> (the number of records), so the "Quarterly count mismatch"
  warning is never written; when the filter year is the current year,
  \<^verbatim>\<open>q1 + q2 + q3 + q4\<close> equals \<^verbatim>\<open>total_publications\<close>.
\<close>

theorem quarterly_sum_invariant:
  assumes "list_all is_record filteredPublications"
  shows "\<exists>st total.
           computeQuarterly ns filteredPublications filterYear nowYear nowMonth = (None, st, total) \<and>
           (if filterYear = nowYear
            then q1 st + q2 st + q3 st + q4 st = total
            else q1 st + q2 st + q3 st + q4 st + publicationsWithoutMonth st = total \<and>
                 total = length filteredPublications \<and>
                 ConsoleWarn quarterly_mismatch \<notin> set (console st))"
proof -
  from computeQuarterly_result[OF assms, of ns filterYear nowYear nowMonth]
  obtain st where
    c: "computeQuarterly ns filteredPublications filterYear nowYear nowMonth =
          (None, st, if filterYear = nowYear then publicationsCountedInTotal st
                     else length filteredPublications)"
    and s: "filterYear \<noteq> nowYear \<longrightarrow>
              qsum st + publicationsWithoutMonth st = length filteredPublications"
      "filterYear = nowYear \<longrightarrow> qsum st = publicationsCountedInTotal st"
      "ConsoleWarn quarterly_mismatch \<notin> set (console st)"
    by blast
  show ?thesis
  proof (cases "filterYear = nowYear")
    case True
    with c s show ?thesis by (simp add: qsum_def)
  next
    case False
    with c s show ?thesis by (simp add: qsum_def)
  qed
qed

theorem quarterly_sum_invariant_witness:
  "list_all is_record example_records \<and>
   (\<exists>st total. computeQuarterly example_ns example_records 2023 2024 2 = (None, st, total) \<and>
      q1 st + q2 st + q3 st + q4 st + publicationsWithoutMonth st = total \<and>
      total = 3 \<and> ConsoleWarn quarterly_mismatch \<notin> set (console st)) \<and>
   (\<exists>st total. computeQuarterly example_ns example_records 2023 2023 2 = (None, st, total) \<and>
      q1 st + q2 st + q3 st + q4 st = total)"
proof -
  have r: "list_all is_record example_records"
    by (simp add: example_records_def is_record_def)
  have len: "length example_records = 3"
    by (simp add: example_records_def)
  from quarterly_sum_invariant[OF r, of example_ns 2023 2024 2]
  have a: "\<exists>st total. computeQuarterly example_ns example_records 2023 2024 2 = (None, st, total) \<and>
      q1 st + q2 st + q3 st + q4 st + publicationsWithoutMonth st = total \<and>
      total = 3 \<and> ConsoleWarn quarterly_mismatch \<notin> set (console st)"
    by (simp add: len)
  from quarterly_sum_invariant[OF r, of example_ns 2023 2023 2]
  have b: "\<exists>st total. computeQuarterly example_ns example_records 2023 2023 2 = (None, st, total) \<and>
      q1 st + q2 st + q3 st + q4 st = total"
    by simp
  from r a b show ?thesis by blast
qed

text \<open>
  Claim C2. When the filter year is not the current year and the year filter has
  selected \<open>sel\<close> from the cached publications: \<open>sel\<close> holds exactly the records whose
  year, normalised by the rules of the specification's section 4.2
  (\<open>normalizeYear_spec\<close>, which is written from those rules), is the filter year, so
  that a record whose year does not parse is left out; \<^verbatim>\<open>total_publications\<close> is the
  size of \<open>sel\<close>, records without a valid month included; and each quarter's counter
  is the number of selected records whose month is valid and maps to that quarter
  under 1-3, 4-6, 7-9, 10-12. For the specification's three records, filtered for 2023
  while the current year is 2024, the counters are 1, 1, 0, 0 and the total is 3. Of
  seven records whose years are the text \<^verbatim>\<open>2023\<close>, the text \<^verbatim>\<open>2023/05\<close>, the number
  2023.5, a text that does not parse, \<^verbatim>\<open>null\<close>, 2024 and none, the filter for 2023
  selects the first three, with counters 1, 1, 0, 0 and total 3. The integers are the
  language's: the year text 9007199254740993 is read as the nearest double and is of
  the year 9007199254740992.
\<close>

theorem non_current_year_aggregation:
  "(\<forall>ns pubs filterYear nowYear nowMonth sel.
      filterYear \<noteq> nowYear \<longrightarrow> filterPublications ns filterYear pubs = Inr sel \<longrightarrow>
        sel = filter (\<lambda>p. normalizeYear_spec ns (year_of p) = Some filterYear) pubs \<and>
        (\<exists>st. computeQuarterly ns sel filterYear nowYear nowMonth = (None, st, length sel) \<and>
              q1 st = length (filter (\<lambda>p. record_quarter ns p = Some 1) sel) \<and>
              q2 st = length (filter (\<lambda>p. record_quarter ns p = Some 2) sel) \<and>
              q3 st = length (filter (\<lambda>p. record_quarter ns p = Some 3) sel) \<and>
              q4 st = length (filter (\<lambda>p. record_quarter ns p = Some 4) sel) \<and>
              publicationsWithoutMonth st =
                length (filter (\<lambda>p. record_quarter ns p = None) sel))) \<and>
   (\<forall>ns nowMonth.
      filterPublications ns 2023 example_records = Inr example_records \<and>
      (\<exists>st. computeQuarterly ns example_records 2023 2024 nowMonth = (None, st, 3) \<and>
            q1 st = 1 \<and> q2 st = 1 \<and> q3 st = 0 \<and> q4 st = 0)) \<and>
   (\<forall>ns nowMonth.
      filterPublications ns 2023 mixed_year_records = Inr year_2023_records \<and>
      map (\<lambda>p. normalizeYear_spec ns (year_of p)) mixed_year_records =
        [Some 2023, Some 2023, Some 2023, None, None, Some 2024, None] \<and>
      (\<exists>st. computeQuarterly ns year_2023_records 2023 2024 nowMonth = (None, st, 3) \<and>
            q1 st = 1 \<and> q2 st = 1 \<and> q3 st = 0 \<and> q4 st = 0)) \<and>
   (\<forall>ns.
      filterPublications ns 9007199254740992 [late_year_record] = Inr [late_year_record] \<and>
      normalizeYear_spec ns (year_of late_year_record) = Some 9007199254740992)"
proof (intro conjI allI impI)
  fix ns pubs and filterYear nowYear nowMonth :: int and sel
  assume ne: "filterYear \<noteq> nowYear" and f: "filterPublications ns filterYear pubs = Inr sel"
  show "sel = filter (\<lambda>p. normalizeYear_spec ns (year_of p) = Some filterYear) pubs"
    by (rule filterPublications_spec[OF f])
  have t: "tallied ns False cq p = record_quarter ns p" for cq p
    by (simp add: tallied_def split: option.splits)
  from computeQuarterly_result[OF filterPublications_records[OF f], of ns filterYear nowYear nowMonth]
  show "\<exists>st. computeQuarterly ns sel filterYear nowYear nowMonth = (None, st, length sel) \<and>
              q1 st = length (filter (\<lambda>p. record_quarter ns p = Some 1) sel) \<and>
              q2 st = length (filter (\<lambda>p. record_quarter ns p = Some 2) sel) \<and>
              q3 st = length (filter (\<lambda>p. record_quarter ns p = Some 3) sel) \<and>
              q4 st = length (filter (\<lambda>p. record_quarter ns p = Some 4) sel) \<and>
              publicationsWithoutMonth st =
                length (filter (\<lambda>p. record_quarter ns p = None) sel)"
    using ne by (auto simp: t)
next
  fix ns nowMonth
  show "filterPublications ns 2023 example_records = Inr example_records"
    by (rule filterPublications_example)
  show "\<exists>st. computeQuarterly ns example_records 2023 2024 nowMonth = (None, st, 3) \<and>
            q1 st = 1 \<and> q2 st = 1 \<and> q3 st = 0 \<and> q4 st = 0"
    by (simp add: quarterly_example_past)
  show "filterPublications ns 2023 mixed_year_records = Inr year_2023_records"
    by (rule mixed_year_filter)
  show "map (\<lambda>p. normalizeYear_spec ns (year_of p)) mixed_year_records =
        [Some 2023, Some 2023, Some 2023, None, None, Some 2024, None]"
    by (rule mixed_year_spec)
  show "\<exists>st. computeQuarterly ns year_2023_records 2023 2024 nowMonth = (None, st, 3) \<and>
            q1 st = 1 \<and> q2 st = 1 \<and> q3 st = 0 \<and> q4 st = 0"
    by (simp add: mixed_year_quarterly)
next
  fix ns
  show "filterPublications ns 9007199254740992 [late_year_record] = Inr [late_year_record]"
    by (rule late_year_filter)
  show "normalizeYear_spec ns (year_of late_year_record) = Some 9007199254740992"
    by (rule late_year_filter)
qed

theorem non_current_year_aggregation_witness:
  "(2023 :: int) \<noteq> 2024 \<and>
   filterPublications example_ns 2023 mixed_year_records = Inr year_2023_records \<and>
   year_2023_records =
     filter (\<lambda>p. normalizeYear_spec example_ns (year_of p) = Some 2023) mixed_year_records \<and>
   map (\<lambda>p. normalizeYear_spec example_ns (year_of p)) mixed_year_records =
     [Some 2023, Some 2023, Some 2023, None, None, Some 2024, None] \<and>
   (\<exists>st. computeQuarterly example_ns year_2023_records 2023 2024 2 =
           (None, st, length year_2023_records) \<and>
         q1 st = length (filter (\<lambda>p. record_quarter example_ns p = Some 1) year_2023_records) \<and>
         q2 st = length (filter (\<lambda>p. record_quarter example_ns p = Some 2) year_2023_records) \<and>
         q3 st = length (filter (\<lambda>p. record_quarter example_ns p = Some 3) year_2023_records) \<and>
         q4 st = length (filter (\<lambda>p. record_quarter example_ns p = Some 4) year_2023_records) \<and>
         publicationsWithoutMonth st =
           length (filter (\<lambda>p. record_quarter example_ns p = None) year_2023_records)) \<and>
   length year_2023_records = 3"
proof -
  have ne: "(2023 :: int) \<noteq> 2024" by simp
  have f: "filterPublications example_ns 2023 mixed_year_records = Inr year_2023_records"
    by (rule mixed_year_filter)
  have m: "map (\<lambda>p. normalizeYear_spec example_ns (year_of p)) mixed_year_records =
     [Some 2023, Some 2023, Some 2023, None, None, Some 2024, None]"
    by (rule mixed_year_spec)
  have l: "length year_2023_records = 3" by (simp add: year_2023_records_def)
  from non_current_year_aggregation[THEN conjunct1, rule_format, where nowMonth = 2, OF ne f]
    ne f m l
  show ?thesis by blast
qed

text \<open>
  Claim C1. When the filter year is the current year (the current month being one of
  1 to 12): each quarter's counter is the number of selected records whose month is
  valid, maps to that quarter, and that quarter is not after the current quarter; so a
  record in a later quarter is in no counter. \<^verbatim>\<open>total_publications\<close> is the number of
  selected records with a valid month in a quarter up to the current one, which leaves
  out the later quarters and the records without a valid month, and it equals the sum
  of the four counters. For the specification's three records, filtered for 2023 in
  February 2023, the counters are 1, 0, 0, 0 and the total is 1.
\<close>

theorem current_year_truncation:
  "(\<forall>ns pubs year nowMonth sel.
      1 \<le> nowMonth \<and> nowMonth \<le> 12 \<longrightarrow> filterPublications ns year pubs = Inr sel \<longrightarrow>
        (\<exists>st total. computeQuarterly ns sel year year nowMonth = (None, st, total) \<and>
           q1 st = length (filter (\<lambda>p. record_quarter ns p = Some 1 \<and>
                                        1 \<le> quarter_of_month nowMonth) sel) \<and>
           q2 st = length (filter (\<lambda>p. record_quarter ns p = Some 2 \<and>
                                        2 \<le> quarter_of_month nowMonth) sel) \<and>
           q3 st = length (filter (\<lambda>p. record_quarter ns p = Some 3 \<and>
                                        3 \<le> quarter_of_month nowMonth) sel) \<and>
           q4 st = length (filter (\<lambda>p. record_quarter ns p = Some 4 \<and>
                                        4 \<le> quarter_of_month nowMonth) sel) \<and>
           total = length (filter (realized ns (quarter_of_month nowMonth)) sel) \<and>
           total = q1 st + q2 st + q3 st + q4 st)) \<and>
   (\<forall>ns.
      filterPublications ns 2023 example_records = Inr example_records \<and>
      (\<exists>st. computeQuarterly ns example_records 2023 2023 2 = (None, st, 1) \<and>
            q1 st = 1 \<and> q2 st = 0 \<and> q3 st = 0 \<and> q4 st = 0))"
proof (intro conjI allI impI)
  fix ns pubs and year nowMonth :: int and sel
  assume m: "1 \<le> nowMonth \<and> nowMonth \<le> 12" and f: "filterPublications ns year pubs = Inr sel"
  let ?cq = "quarter_of_month nowMonth"
  from m have cq: "currentQuarter_of nowMonth = ?cq" by (simp add: currentQuarter_of_eq)
  have t: "(tallied ns True ?cq p = Some k) = (record_quarter ns p = Some k \<and> k \<le> ?cq)" for p k
    by (auto simp: tallied_def split: option.splits)
  have c: "counts_as ns True ?cq = realized ns ?cq"
    by (rule ext) (simp add: counts_as_def realized_def split: option.splits)
  from computeQuarterly_result[OF filterPublications_records[OF f], of ns year year nowMonth]
  show "\<exists>st total. computeQuarterly ns sel year year nowMonth = (None, st, total) \<and>
           q1 st = length (filter (\<lambda>p. record_quarter ns p = Some 1 \<and> 1 \<le> ?cq) sel) \<and>
           q2 st = length (filter (\<lambda>p. record_quarter ns p = Some 2 \<and> 2 \<le> ?cq) sel) \<and>
           q3 st = length (filter (\<lambda>p. record_quarter ns p = Some 3 \<and> 3 \<le> ?cq) sel) \<and>
           q4 st = length (filter (\<lambda>p. record_quarter ns p = Some 4 \<and> 4 \<le> ?cq) sel) \<and>
           total = length (filter (realized ns ?cq) sel) \<and>
           total = q1 st + q2 st + q3 st + q4 st"
    by (auto simp: cq t c qsum_def)
next
  fix ns
  show "filterPublications ns 2023 example_records = Inr example_records"
    by (rule filterPublications_example)
  show "\<exists>st. computeQuarterly ns example_records 2023 2023 2 = (None, st, 1) \<and>
            q1 st = 1 \<and> q2 st = 0 \<and> q3 st = 0 \<and> q4 st = 0"
    by (simp add: quarterly_example_current)
qed

theorem current_year_truncation_witness:
  "((1 :: int) \<le> 2 \<and> (2 :: int) \<le> 12) \<and>
   filterPublications example_ns 2023 example_records = Inr example_records \<and>
   (\<exists>st total. computeQuarterly example_ns example_records 2023 2023 2 = (None, st, total) \<and>
      q1 st = length (filter (\<lambda>p. record_quarter example_ns p = Some 1 \<and>
                                   1 \<le> quarter_of_month 2) example_records) \<and>
      q2 st = length (filter (\<lambda>p. record_quarter example_ns p = Some 2 \<and>
                                   2 \<le> quarter_of_month 2) example_records) \<and>
      q3 st = length (filter (\<lambda>p. record_quarter example_ns p = Some 3 \<and>
                                   3 \<le> quarter_of_month 2) example_records) \<and>
      q4 st = length (filter (\<lambda>p. record_quarter example_ns p = Some 4 \<and>
                                   4 \<le> quarter_of_month 2) example_records) \<and>
      total = length (filter (realized example_ns (quarter_of_month 2)) example_records) \<and>
      total = q1 st + q2 st + q3 st + q4 st)"
proof -
  have m: "(1 :: int) \<le> 2 \<and> (2 :: int) \<le> 12" by simp
  have f: "filterPublications example_ns 2023 example_records = Inr example_records"
    by (rule filterPublications_example)
  from current_year_truncation[THEN conjunct1, rule_format, OF m f] m f
  show ?thesis by blast
qed

section \<open>The college aggregation\<close>

lemma those_string_of: "those (map string_of cs) = Some ss \<Longrightarrow> cs = map JStr ss"
proof (induction cs arbitrary: ss)
  case Nil
  then show ?case by simp
next
  case (Cons c cs)
  then show ?case
    by (cases c) (auto simp: string_of_def split: option.splits)
qed

lemma add_names_Nil: "add_names [] cc = cc"
  by (simp add: add_names_def)

lemma college_entry_string:
  "college_entry ns (JStr s) cc = Inr (add_names [s] cc)"
  by (simp add: college_entry_def add_names_def)

lemma add_names_Cons: "add_names ss (add_names [s] cc) = add_names (s # ss) cc"
  by (simp add: add_names_def)

lemma add_names_append: "add_names ts (add_names ss cc) = add_names (ss @ ts) cc"
  by (simp add: add_names_def)

lemma college_entries_strings:
  "college_entries ns (map JStr ss) cc = Inr (add_names ss cc)"
  by (induction ss arbitrary: cc) (simp_all add: add_names_Nil college_entry_string add_names_Cons)

lemma college_step_names:
  assumes "college_names pub = Some ss"
  shows "college_step ns pub cc = Inr (add_names ss cc)"
proof -
  from assms obtain c where g: "get_prop pub ''colleges'' = Inr c"
    by (auto simp: college_names_def split: sum.splits)
  show ?thesis
  proof (cases "truthy c")
    case False
    with assms g show ?thesis
      by (simp add: college_names_def college_step_def add_names_Nil)
  next
    case True
    with assms g obtain cs where c: "c = JArr cs" and t: "those (map string_of cs) = Some ss"
      by (cases c) (auto simp: college_names_def)
    from those_string_of[OF t] c g True show ?thesis
      by (simp add: college_step_def college_entries_strings)
  qed
qed

lemma college_loop_names:
  "map college_names pubs = map Some names \<Longrightarrow>
     college_loop ns pubs cc = Inr (add_names (concat names) cc)"
proof (induction pubs arbitrary: names cc)
  case Nil
  then show ?case by (simp add: add_names_Nil)
next
  case (Cons p ps)
  then obtain n ns' where n: "names = n # ns'" "college_names p = Some n"
    "map college_names ps = map Some ns'"
    by (cases names) auto
  from Cons.IH[OF n(3)] college_step_names[OF n(2)] n(1) show ?case
    by (simp add: add_names_append)
qed

text \<open>
  Claim C6. The college aggregation starts the four keys at 0 and, over records whose
  \<^verbatim>\<open>colleges\<close> are sequences of strings, counts for each key the entries equal to
  it, over all records; an entry that is none of the four keys changes nothing, and a
  record adds to as many keys as its entries match. The specification's three records
  give engineering 2, informatics_computing 1 and 0 for the other two.
\<close>

theorem college_aggregation:
  "(\<forall>ns pubs names.
      map college_names pubs = map Some names \<longrightarrow>
        computeCollegeCounts ns pubs =
          Inr \<lparr>engineering = count_list (concat names) ''engineering'',
               informatics_computing = count_list (concat names) ''informatics_computing'',
               engineering_technology = count_list (concat names) ''engineering_technology'',
               architecture_design = count_list (concat names) ''architecture_design''\<rparr>) \<and>
   (\<forall>ns. computeCollegeCounts ns example_colleges =
           Inr \<lparr>engineering = 2, informatics_computing = 1,
                engineering_technology = 0, architecture_design = 0\<rparr>)"
proof (intro conjI allI impI)
  fix ns pubs names
  assume "map college_names pubs = map Some names"
  from college_loop_names[OF this, of ns college_counts0]
  show "computeCollegeCounts ns pubs =
          Inr \<lparr>engineering = count_list (concat names) ''engineering'',
               informatics_computing = count_list (concat names) ''informatics_computing'',
               engineering_technology = count_list (concat names) ''engineering_technology'',
               architecture_design = count_list (concat names) ''architecture_design''\<rparr>"
    by (simp add: computeCollegeCounts_def add_names_def college_counts0_def)
next
  fix ns
  have "map college_names example_colleges =
          map Some [[''engineering''], [''engineering'', ''informatics_computing''], []]"
    by (simp add: example_colleges_def college_names_def string_of_def)
  from college_loop_names[OF this, of ns college_counts0]
  show "computeCollegeCounts ns example_colleges =
           Inr \<lparr>engineering = 2, informatics_computing = 1,
                engineering_technology = 0, architecture_design = 0\<rparr>"
    by (simp add: computeCollegeCounts_def add_names_def college_counts0_def)
qed

theorem college_aggregation_witness:
  "map college_names example_colleges =
     map Some [[''engineering''], [''engineering'', ''informatics_computing''], []] \<and>
   computeCollegeCounts example_ns example_colleges =
     Inr \<lparr>engineering = 2, informatics_computing = 1,
          engineering_technology = 0, architecture_design = 0\<rparr>"
proof -
  have m: "map college_names example_colleges =
          map Some [[''engineering''], [''engineering'', ''informatics_computing''], []]"
    by (simp add: example_colleges_def college_names_def string_of_def)
  from college_aggregation[THEN conjunct1, rule_format, OF m, of example_ns] m
  show ?thesis by simp
qed

section \<open>Exceptions in the two loops\<close>








section \<open>The loader and the stale cache\<close>

lemma renders_append: "renders (xs @ ys) = renders xs @ renders ys"
  by (induction xs rule: renders.induct) simp_all

lemma quiet_append: "quiet (xs @ ys) \<longleftrightarrow> quiet xs \<and> quiet ys"
  by (auto simp: quiet_def renders_append)

lemma quiet_simps:
  "quiet []" "quiet [ConsoleWarn m]" "quiet [ConsoleError m]" "quiet [ConsoleLog m]"
  by (simp_all add: quiet_def)

lemma truthy_get_prop: "truthy v \<Longrightarrow> \<exists>x. get_prop v k = Inr x"
  by (cases v) auto


lemma getCachedData_truthy: "truthy (fst (getCachedData W st)) \<Longrightarrow> snd (getCachedData W st) = []"
  by (auto simp: getCachedData_def split: option.splits if_splits)






lemma example_cached:
  "getCachedData example_world example_store = (example_envelope, [])"
  "getCachedData example_world Map.empty = (JNull, [])"
  by (simp_all add: getCachedData_def example_store_def example_world_def)











section \<open>The year filter against the cache\<close>

lemma month_step_quiet:
  "quiet (console st) \<Longrightarrow> quiet (console (snd (month_step ns cur cq pub st)))"
  by (auto simp: month_step_def without_month_def count_quarter_def Let_def quiet_append
        quiet_simps split: sum.splits option.splits)

lemma month_loop_quiet:
  "quiet (console st) \<Longrightarrow> quiet (console (snd (month_loop ns cur cq pubs st)))"
proof (induction pubs arbitrary: st)
  case Nil
  then show ?case by simp
next
  case (Cons p ps)
  from month_step_quiet[OF Cons.prems, of ns cur cq p]
  show ?case
    by (cases "month_step ns cur cq p st") (auto split: option.splits intro: Cons.IH)
qed

lemma quarterlyCounts_quiet:
  "quiet (console (fst (snd (quarterlyCounts ns sel fy cy cm))))"
proof -
  have "quiet (console qstate0)" by (simp add: qstate0_def quiet_simps)
  from month_loop_quiet[OF this, of ns "fy = Fin (of_int cy)" "currentQuarter_of cm" sel]
  show ?thesis
    by (cases "month_loop ns (fy = Fin (of_int cy)) (currentQuarter_of cm) sel qstate0")
      (auto simp: quarterlyCounts_def Let_def quiet_append quiet_simps split: option.splits)
qed

lemma merge_stats_frame:
  "k \<notin> recomputed \<Longrightarrow>
     map_of (own_props (merge_stats dashboardStats n st cc)) k = map_of (own_props dashboardStats) k"
  by (simp add: merge_stats_def recomputed_def update_conv')

lemma year_filter_valid:
  assumes "parseInt year 10 = Some filterYear"
  shows "quiet (fst (year_filter W cachedData dashboardStats year)) \<and>
         snd (year_filter W cachedData dashboardStats year) \<noteq> Inr None \<and>
         (\<forall>stats. snd (year_filter W cachedData dashboardStats year) = Inr (Some stats) \<longrightarrow>
            (\<exists>n st cc. stats = merge_stats dashboardStats n st cc))"
proof -
  have q: "quiet (console st)"
    if "quarterlyCounts ns sel fy cy cm = (e, st, n)" for ns sel fy cy cm e st n
    using quarterlyCounts_quiet[of ns sel fy cy cm] that by simp
  show ?thesis
    using assms
    by (auto simp: year_filter_def Let_def quiet_simps q
          split: sum.splits jsval.splits option.splits prod.splits)
qed

lemma year_filter_raised:
  assumes "truthy (fst (getCachedData W st))" and "parseInt year 10 = Some y"
    and "get_prop (fst (getCachedData W st)) ''dashboard_stats'' = Inr ds"
    and "year_filter W (fst (getCachedData W st)) ds year = (out, Inl e)"
  shows "loadDashboardData W st year =
           \<lparr>stored = st, trace = out @ [ConsoleError ''Error filtering by year:'', UpdateDashboard ds],
            rejected = (\<not> updateDashboardReturns W ds)\<rparr>"
proof -
  obtain cachedData perr where g: "getCachedData W st = (cachedData, perr)"
    by (cases "getCachedData W st")
  with assms(1) getCachedData_truthy[of W st] have t: "truthy cachedData" and p: "perr = []"
    by simp_all
  from assms(2) have ne: "year \<noteq> []" by (auto simp: parseInt_empty)
  from g t p ne assms(3,4) show ?thesis
    by (simp add: loadDashboardData_def render_def)
qed

lemma year_filter_bad_year:
  assumes "parseInt year 10 = Some y" and "get_prop c ''publications'' = Inr (JArr pubs)"
    and "p \<in> set pubs" and "getPubYear (numberToString W) p = Inl e"
  shows "year_filter W c ds year = ([], Inl TypeError)"
proof -
  from assms(3,4) filterByYear_raises[of "numberToString W" "to_number y" pubs]
  obtain e' where "filterByYear (numberToString W) (to_number y) pubs = Inl e'" by blast
  moreover from this have "e' = TypeError" by (rule filterByYear_TypeError)
  ultimately show ?thesis using assms(1,2) by (simp add: year_filter_def)
qed



lemma cached_world_simps:
  "getCachedData (cached_world envelope) example_store = (envelope, [])"
  "numberToString (cached_world envelope) = example_ns"
  "updateDashboardReturns (cached_world envelope) v"
  "currentYear (cached_world envelope) = 2024"
  "currentMonth (cached_world envelope) = 2"
  by (simp_all add: cached_world_def getCachedData_def example_store_def example_world_def)

text \<open>
  Claim C7. When \<^verbatim>\<open>getCachedData\<close> yields an envelope and the year filter is a
  string that \<^verbatim>\<open>parseInt\<close> reads as an integer, \<^verbatim>\<open>loadDashboardData\<close> sends no
  request, leaves the store as it is, and calls \<^verbatim>\<open>updateDashboard\<close> exactly once,
  with a value that agrees with the cached \<^verbatim>\<open>dashboard_stats\<close> on every property
  other than \<^verbatim>\<open>total_publications\<close>, \<^verbatim>\<open>quarterly_counts\<close> and
  \<^verbatim>\<open>college_counts\<close> (so \<^verbatim>\<open>department_counts\<close>,
  \<^verbatim>\<open>department_quarterly_counts\<close> and \<^verbatim>\<open>earliest_year\<close> pass through).
\<close>

theorem year_filter_frame:
  assumes "truthy (fst (getCachedData W st))" and "year \<noteq> []"
    and "parseInt year 10 = Some filterYear"
  shows "\<exists>dashboardStats stats.
           get_prop (fst (getCachedData W st)) ''dashboard_stats'' = Inr dashboardStats \<and>
           renders (trace (loadDashboardData W st year)) = [stats] \<and>
           (\<forall>k. k \<notin> recomputed \<longrightarrow>
                map_of (own_props stats) k = map_of (own_props dashboardStats) k) \<and>
           FetchAllData \<notin> set (trace (loadDashboardData W st year)) \<and>
           stored (loadDashboardData W st year) = st"
proof -
  obtain cachedData perr where g: "getCachedData W st = (cachedData, perr)"
    by (cases "getCachedData W st")
  with assms(1) getCachedData_truthy[of W st] have t: "truthy cachedData" and p: "perr = []"
    by simp_all
  from truthy_get_prop[OF t] obtain dashboardStats where
    d: "get_prop cachedData ''dashboard_stats'' = Inr dashboardStats" by blast
  obtain out res where y: "year_filter W cachedData dashboardStats year = (out, res)"
    by (cases "year_filter W cachedData dashboardStats year")
  from year_filter_valid[OF assms(3), of W cachedData dashboardStats] y
  have q: "quiet out" and nr: "res \<noteq> Inr None"
    and m: "\<forall>stats. res = Inr (Some stats) \<longrightarrow> (\<exists>n st cc. stats = merge_stats dashboardStats n st cc)"
    by simp_all
  from q have ro: "renders out = []" and fo: "FetchAllData \<notin> set out"
    by (simp_all add: quiet_def)
  show ?thesis
  proof (cases res)
    case (Inl e)
    with g t p d y assms(2) ro fo
    have "renders (trace (loadDashboardData W st year)) = [dashboardStats]"
      "FetchAllData \<notin> set (trace (loadDashboardData W st year))"
      "stored (loadDashboardData W st year) = st"
      by (simp_all add: loadDashboardData_def render_def renders_append)
    with g d show ?thesis by auto
  next
    case (Inr r)
    with nr obtain stats where s: "res = Inr (Some stats)" by (cases r) auto
    with m obtain n qs cc where ms: "stats = merge_stats dashboardStats n qs cc" by blast
    from s g t p d y assms(2) ro fo
    have "renders (trace (loadDashboardData W st year)) = [stats]"
      "FetchAllData \<notin> set (trace (loadDashboardData W st year))"
      "stored (loadDashboardData W st year) = st"
      by (simp_all add: loadDashboardData_def render_def renders_append)
    with g d ms merge_stats_frame[of _ dashboardStats n qs cc] show ?thesis by auto
  qed
qed

lemma example_recomputed:
  "to_number 2023 = Fin 2023"
  "filterByYear example_ns (Fin 2023) example_records = Inr example_records"
  "quarterlyCounts example_ns example_records (Fin 2023) 2024 2 =
     (None,
      \<lparr>q1 = 1, q2 = 1, q3 = 0, q4 = 0, publicationsWithoutMonth = 1,
       publicationsCountedInTotal = 3,
       console = [ConsoleWarn ''Publication missing month:'']\<rparr>, 3)"
  "computeCollegeCounts example_ns example_records = Inr college_counts0"
proof -
  show "to_number 2023 = Fin 2023"
    using to_number_small[of 2023] by simp
  show "filterByYear example_ns (Fin 2023) example_records = Inr example_records"
    using filterPublications_example[of example_ns] by (simp add: filterPublications_def)
  show "quarterlyCounts example_ns example_records (Fin 2023) 2024 2 =
     (None,
      \<lparr>q1 = 1, q2 = 1, q3 = 0, q4 = 0, publicationsWithoutMonth = 1,
       publicationsCountedInTotal = 3,
       console = [ConsoleWarn ''Publication missing month:'']\<rparr>, 3)"
    using quarterly_example_past[of example_ns 2] by (simp add: computeQuarterly_def)
  show "computeCollegeCounts example_ns example_records = Inr college_counts0"
    by (simp add: computeCollegeCounts_def example_records_def college_step_def)
qed

lemma example_year_filter_any:
  assumes "parseInt year 10 = Some 2023"
  shows "year_filter example_world example_envelope example_stats year =
     ([ConsoleWarn ''Publication missing month:''], Inr (Some example_filtered))"
proof -
  have g: "get_prop example_envelope ''publications'' = Inr (JArr example_records)"
    by (simp add: example_envelope_def)
  have w: "numberToString example_world = example_ns" "currentYear example_world = 2024"
    "currentMonth example_world = 2"
    by (simp_all add: example_world_def)
  show ?thesis
    by (simp add: year_filter_def assms g w example_recomputed merge_stats_def example_stats_def
          example_filtered_def quarterly_object_def)
qed

lemma example_year_filter:
  "year_filter example_world example_envelope example_stats ''2023'' =
     ([ConsoleWarn ''Publication missing month:''], Inr (Some example_filtered))"
  by (rule example_year_filter_any) (simp add: parseInt_10 is_ws_def digit_val_def)

lemma example_year_run:
  assumes "parseInt year 10 = Some 2023"
  shows "trace (loadDashboardData example_world example_store year) =
           [ConsoleWarn ''Publication missing month:'', UpdateDashboard example_filtered]"
proof -
  have e: "truthy example_envelope"
    "get_prop example_envelope ''dashboard_stats'' = Inr example_stats"
    by (simp_all add: example_envelope_def)
  from assms have "year \<noteq> []" by (auto simp: parseInt_empty)
  then show ?thesis
    by (simp add: loadDashboardData_def example_cached e example_year_filter_any[OF assms]
          render_def)
qed

theorem year_filter_frame_witness:
  "truthy (fst (getCachedData example_world example_store)) \<and>
   ''2023'' \<noteq> [] \<and> parseInt ''2023'' 10 = Some 2023 \<and>
   get_prop (fst (getCachedData example_world example_store)) ''dashboard_stats'' =
     Inr example_stats \<and>
   renders (trace (loadDashboardData example_world example_store ''2023'')) = [example_filtered] \<and>
   ''department_counts'' \<notin> recomputed \<and>
   map_of (own_props example_filtered) ''department_counts'' =
     map_of (own_props example_stats) ''department_counts'' \<and>
   ''earliest_year'' \<notin> recomputed \<and>
   map_of (own_props example_filtered) ''earliest_year'' =
     map_of (own_props example_stats) ''earliest_year'' \<and>
   FetchAllData \<notin> set (trace (loadDashboardData example_world example_store ''2023''))"
proof -
  have t: "truthy (fst (getCachedData example_world example_store))"
    by (simp add: example_cached example_envelope_def)
  have ne: "''2023'' \<noteq> []" by simp
  have p: "parseInt ''2023'' 10 = Some 2023"
    by (simp add: parseInt_10 is_ws_def digit_val_def)
  have g: "get_prop (fst (getCachedData example_world example_store)) ''dashboard_stats'' =
             Inr example_stats"
    by (simp add: example_cached example_envelope_def)
  have r: "renders (trace (loadDashboardData example_world example_store ''2023'')) =
             [example_filtered]"
  proof -
    have e: "truthy example_envelope"
      "get_prop example_envelope ''dashboard_stats'' = Inr example_stats"
      by (simp_all add: example_envelope_def)
    show ?thesis
      by (simp add: loadDashboardData_def example_cached e example_year_filter render_def)
  qed
  have k1: "''department_counts'' \<notin> recomputed" and k2: "''earliest_year'' \<notin> recomputed"
    by (simp_all add: recomputed_def)
  from year_filter_frame[OF t ne p] g r
  have fr: "\<forall>k. k \<notin> recomputed \<longrightarrow>
              map_of (own_props example_filtered) k = map_of (own_props example_stats) k"
    and nf: "FetchAllData \<notin> set (trace (loadDashboardData example_world example_store ''2023''))"
    by auto
  from fr k1 have f1: "map_of (own_props example_filtered) ''department_counts'' =
     map_of (own_props example_stats) ''department_counts''" by blast
  from fr k2 have f2: "map_of (own_props example_filtered) ''earliest_year'' =
     map_of (own_props example_stats) ''earliest_year''" by blast
  show ?thesis by (intro conjI t ne p g r k1 f1 k2 f2 nf)
qed

text \<open>
  Claim C8, as stated, fails for a year filter that begins with an integer.
  \<^verbatim>\<open>parseInt\<close> reads the digits a text begins with and ignores the rest, so the year
  filters \<^verbatim>\<open>2023abc\<close> and \<^verbatim>\<open>2023.9\<close>, which are not valid integers, are taken as
  2023: both aggregators run (the month loop writes its warning) and the recomputed
  statistics are rendered, not the cached ones.
\<close>

theorem partial_year_is_filtered:
  "''2023abc'' \<noteq> [] \<and> \<not> is_integer_string ''2023abc'' \<and>
   ''2023.9'' \<noteq> [] \<and> \<not> is_integer_string ''2023.9'' \<and>
   truthy (fst (getCachedData example_world example_store)) \<and>
   get_prop (fst (getCachedData example_world example_store)) ''dashboard_stats'' =
     Inr example_stats \<and>
   trace (loadDashboardData example_world example_store ''2023abc'') =
     [ConsoleWarn ''Publication missing month:'', UpdateDashboard example_filtered] \<and>
   trace (loadDashboardData example_world example_store ''2023.9'') =
     [ConsoleWarn ''Publication missing month:'', UpdateDashboard example_filtered] \<and>
   example_filtered \<noteq> example_stats"
proof -
  have p: "parseInt ''2023abc'' 10 = Some 2023" "parseInt ''2023.9'' 10 = Some 2023"
    by (simp_all add: parseInt_10 is_ws_def digit_val_def)
  have i: "\<not> is_integer_string ''2023abc''" "\<not> is_integer_string ''2023.9''"
    by (simp_all add: is_integer_string_def digit_val_def)
  have c: "truthy (fst (getCachedData example_world example_store))"
    "get_prop (fst (getCachedData example_world example_store)) ''dashboard_stats'' =
       Inr example_stats"
    by (simp_all add: example_cached example_envelope_def)
  have n: "example_filtered \<noteq> example_stats"
    by (simp add: example_filtered_def example_stats_def)
  show ?thesis
    using i c n by (simp add: example_year_run[OF p(1)] example_year_run[OF p(2)])
qed

text \<open>
  Claim C8, amended. When \<^verbatim>\<open>getCachedData\<close> yields an envelope and the year filter is a
  non-empty string for which \<^verbatim>\<open>parseInt(year, 10)\<close> is \<^verbatim>\<open>NaN\<close> (no digit follows
  its leading white space and sign), the run consists of the call of
  \<^verbatim>\<open>updateDashboard\<close> with the cached \<^verbatim>\<open>dashboard_stats\<close>, unchanged (made a second
  time, after a line on the console, only if the first call raises): no warning of
  the month loop is written, nothing is fetched, and the block of the year filter does
  the same whatever the cached publications are, so neither aggregator runs. Every
  valid integer is read by \<^verbatim>\<open>parseInt\<close>, so none is passed through.
\<close>

theorem invalid_year_passthrough:
  "(\<forall>W st year.
      truthy (fst (getCachedData W st)) \<longrightarrow> year \<noteq> [] \<longrightarrow> parseInt year 10 = None \<longrightarrow>
        (\<exists>dashboardStats.
           get_prop (fst (getCachedData W st)) ''dashboard_stats'' = Inr dashboardStats \<and>
           trace (loadDashboardData W st year) =
             (if updateDashboardReturns W dashboardStats
              then [UpdateDashboard dashboardStats]
              else [UpdateDashboard dashboardStats, ConsoleError ''Error filtering by year:'',
                    UpdateDashboard dashboardStats]) \<and>
           (\<forall>c. year_filter W c dashboardStats year =
                 year_filter W (fst (getCachedData W st)) dashboardStats year) \<and>
           stored (loadDashboardData W st year) = st)) \<and>
   (\<forall>year. is_integer_string year \<longrightarrow> parseInt year 10 \<noteq> None)"
proof (intro conjI allI impI)
  fix W st year
  assume a: "truthy (fst (getCachedData W st))" "year \<noteq> []" "parseInt year 10 = None"
  obtain cachedData perr where g: "getCachedData W st = (cachedData, perr)"
    by (cases "getCachedData W st")
  with a(1) getCachedData_truthy[of W st] have t: "truthy cachedData" and p: "perr = []"
    by simp_all
  from truthy_get_prop[OF t] obtain dashboardStats where
    d: "get_prop cachedData ''dashboard_stats'' = Inr dashboardStats" by blast
  have y: "year_filter W c dashboardStats year =
             ([UpdateDashboard dashboardStats],
              if updateDashboardReturns W dashboardStats then Inr None else Inl TypeError)" for c
    using a(3) by (simp add: year_filter_def)
  from g t p d a(2) y[of cachedData]
  have "trace (loadDashboardData W st year) =
             (if updateDashboardReturns W dashboardStats
              then [UpdateDashboard dashboardStats]
              else [UpdateDashboard dashboardStats, ConsoleError ''Error filtering by year:'',
                    UpdateDashboard dashboardStats])"
    "stored (loadDashboardData W st year) = st"
    by (simp_all add: loadDashboardData_def render_def)
  with g d y show "\<exists>dashboardStats.
           get_prop (fst (getCachedData W st)) ''dashboard_stats'' = Inr dashboardStats \<and>
           trace (loadDashboardData W st year) =
             (if updateDashboardReturns W dashboardStats
              then [UpdateDashboard dashboardStats]
              else [UpdateDashboard dashboardStats, ConsoleError ''Error filtering by year:'',
                    UpdateDashboard dashboardStats]) \<and>
           (\<forall>c. year_filter W c dashboardStats year =
                 year_filter W (fst (getCachedData W st)) dashboardStats year) \<and>
           stored (loadDashboardData W st year) = st" by auto
next
  fix year
  assume "is_integer_string year"
  then show "parseInt year 10 \<noteq> None" by (rule integer_string_parses)
qed

theorem invalid_year_passthrough_witness:
  "truthy (fst (getCachedData example_world example_store)) \<and>
   ''all'' \<noteq> [] \<and> parseInt ''all'' 10 = None \<and>
   get_prop (fst (getCachedData example_world example_store)) ''dashboard_stats'' =
     Inr example_stats \<and>
   updateDashboardReturns example_world example_stats \<and>
   trace (loadDashboardData example_world example_store ''all'') = [UpdateDashboard example_stats] \<and>
   is_integer_string ''-2023'' \<and> parseInt ''-2023'' 10 \<noteq> None"
proof -
  have t: "truthy (fst (getCachedData example_world example_store))"
    by (simp add: example_cached example_envelope_def)
  have ne: "''all'' \<noteq> []" by simp
  have p: "parseInt ''all'' 10 = None"
    by (simp add: parseInt_10 is_ws_def digit_val_def)
  have g: "get_prop (fst (getCachedData example_world example_store)) ''dashboard_stats'' =
             Inr example_stats"
    by (simp add: example_cached example_envelope_def)
  have u: "updateDashboardReturns example_world example_stats"
    by (simp add: example_world_def)
  from invalid_year_passthrough[THEN conjunct1, rule_format, OF t ne p] g u
  have r: "trace (loadDashboardData example_world example_store ''all'') =
             [UpdateDashboard example_stats]"
    by auto
  have i: "is_integer_string ''-2023''" by (simp add: is_integer_string_def digit_val_def)
  have j: "parseInt ''-2023'' 10 \<noteq> None"
    by (rule invalid_year_passthrough[THEN conjunct2, rule_format, OF i])
  show ?thesis by (intro conjI t ne p g u r i j)
qed

section \<open>Year normalisation\<close>

text \<open>
  Claim C5, as stated, fails in one respect: the normaliser can raise. A year that is
  an object with an own \<^verbatim>\<open>toString\<close> property reaches \<^verbatim>\<open>parseInt(pubYear, 10)\<close>,
  whose conversion of the object to a string raises a TypeError.
\<close>

theorem normalizeYear_throws:
  "normalizeYear example_ns (JObj [(''toString'', int_val 1)]) = Inl TypeError \<and>
   getPubYear example_ns (JObj [(''year'', JObj [(''toString'', int_val 1)])]) = Inl TypeError"
  by (simp add: getPubYear_def normalizeYear_def parseInt_js_def Let_def)

text \<open>
  Claim C5, amended. The normaliser returns \<^verbatim>\<open>null\<close> on \<^verbatim>\<open>null\<close>, \<^verbatim>\<open>undefined\<close>
  and the empty string; the integer floor of a finite number; on a string with a
  slash, the integer parsed from the trimmed text before the first slash, and when
  that does not parse, the integer parsed from the trimmed whole string; on any other
  string the integer parsed from the trimmed string; on a value of any other type the
  integer parsed from its conversion to a string; and \<^verbatim>\<open>null\<close> wherever the parse
  gives \<^verbatim>\<open>NaN\<close>. A parsed integer is the Number that \<^verbatim>\<open>parseInt\<close> returns: itself
  below \<^verbatim>\<open>2^53\<close> in magnitude, the nearest double beyond (9007199254740993 gives
  9007199254740992). The normaliser raises exactly on an object with an own
  \<^verbatim>\<open>toString\<close> property and on an array that holds such a value, and what it raises
  is a TypeError; on every other value it returns \<^verbatim>\<open>null\<close>, an integer, or the
  infinite number it was given or has parsed. It is idempotent,
  \<^verbatim>\<open>normalizeYear("2023/05")\<close> is 2023, and an integer is returned as it is. When it
  raises on the year of a cached publication under a year filter that
  \<^verbatim>\<open>parseInt\<close> reads, the \<^verbatim>\<open>try\<close> of \<^verbatim>\<open>loadDashboardData\<close> catches the
  TypeError: the run writes one line on the console and renders the cached
  \<^verbatim>\<open>dashboard_stats\<close> unfiltered.
\<close>

theorem normalizeYear_rules:
  "(\<forall>ns. normalizeYear ns JNull = Inr JNull \<and> normalizeYear ns JUndefined = Inr JNull \<and>
         normalizeYear ns (JStr []) = Inr JNull) \<and>
   (\<forall>ns q. normalizeYear ns (JNum (Fin q)) = Inr (int_val \<lfloor>q\<rfloor>)) \<and>
   (\<forall>ns s. s \<noteq> [] \<longrightarrow> CHR ''/'' \<in> set s \<longrightarrow>
      normalizeYear ns (JStr s) =
        Inr (nan_to_null
              (case parseInt (trim (takeWhile (\<lambda>c. c \<noteq> CHR ''/'') s)) 10 of
                 Some y \<Rightarrow> Some y
               | None \<Rightarrow> parseInt (trim s) 10))) \<and>
   (\<forall>ns s. s \<noteq> [] \<longrightarrow> CHR ''/'' \<notin> set s \<longrightarrow>
      normalizeYear ns (JStr s) = Inr (nan_to_null (parseInt (trim s) 10))) \<and>
   (\<forall>ns v. other_type v \<longrightarrow>
      normalizeYear ns v =
        (case to_string ns v of
           Inl e \<Rightarrow> Inl e
         | Inr t \<Rightarrow> Inr (nan_to_null (parseInt t 10)))) \<and>
   (nan_to_null None = JNull \<and>
    (\<forall>n. \<bar>n\<bar> < 2 ^ 53 \<longrightarrow> nan_to_null (Some n) = int_val n) \<and>
    nan_to_null (Some 9007199254740993) = int_val 9007199254740992 \<and>
    (\<forall>n. nan_to_null (Some n) = JNum (to_number n))) \<and>
   (\<forall>ns v. (\<exists>e. normalizeYear ns v = Inl e) \<longleftrightarrow> unprintable v) \<and>
   (\<forall>ns v e. normalizeYear ns v = Inl e \<longrightarrow> e = TypeError) \<and>
   (\<forall>ns v r. normalizeYear ns v = Inr r \<longrightarrow>
      (r = JNull \<or> (\<exists>n. r = int_val n) \<or> r = JNum PosInfinity \<or> r = JNum NegInfinity) \<and>
      normalizeYear ns r = Inr r) \<and>
   (\<forall>ns n. normalizeYear ns (JStr ''2023/05'') = Inr (int_val 2023) \<and>
           normalizeYear ns (int_val n) = Inr (int_val n)) \<and>
   (\<forall>W st year y ds pubs p.
      truthy (fst (getCachedData W st)) \<longrightarrow> parseInt year 10 = Some y \<longrightarrow>
      get_prop (fst (getCachedData W st)) ''dashboard_stats'' = Inr ds \<longrightarrow>
      get_prop (fst (getCachedData W st)) ''publications'' = Inr (JArr pubs) \<longrightarrow>
      p \<in> set pubs \<longrightarrow> is_record p \<longrightarrow> unprintable (year_of p) \<longrightarrow>
        loadDashboardData W st year =
          \<lparr>stored = st,
           trace = [ConsoleError ''Error filtering by year:'', UpdateDashboard ds],
           rejected = (\<not> updateDashboardReturns W ds)\<rparr>)"
proof (intro conjI allI impI)
  fix ns s
  assume "s \<noteq> []" "CHR ''/'' \<in> set s"
  then show "normalizeYear ns (JStr s) =
        Inr (nan_to_null
              (case parseInt (trim (takeWhile (\<lambda>c. c \<noteq> CHR ''/'') s)) 10 of
                 Some y \<Rightarrow> Some y
               | None \<Rightarrow> parseInt (trim s) 10))"
    using or_parse_fallback[of s]
    by (simp add: normalizeYear_def Let_def split_slash_first_def)
next
  fix ns s
  assume "s \<noteq> []" "CHR ''/'' \<notin> set s"
  moreover from this have "split_slash_first s = s"
    by (auto simp: split_slash_first_def)
  ultimately show "normalizeYear ns (JStr s) = Inr (nan_to_null (parseInt (trim s) 10))"
    by (simp add: normalizeYear_def Let_def or_parse_def split: option.splits)
next
  fix ns v
  assume "other_type v"
  then show "normalizeYear ns v =
        (case to_string ns v of
           Inl e \<Rightarrow> Inl e
         | Inr t \<Rightarrow> Inr (nan_to_null (parseInt t 10)))"
    by (rule normalizeYear_other)
next
  show "nan_to_null None = JNull" by (rule nan_to_null_small)
next
  fix n :: int
  assume "\<bar>n\<bar> < 2 ^ 53"
  then show "nan_to_null (Some n) = int_val n" by (rule nan_to_null_small)
next
  show "nan_to_null (Some 9007199254740993) = int_val 9007199254740992"
    by (simp add: nan_to_null_def to_number_late int_val_def)
next
  fix n
  show "nan_to_null (Some n) = JNum (to_number n)" by (simp add: nan_to_null_def)
next
  fix ns v
  show "(\<exists>e. normalizeYear ns v = Inl e) \<longleftrightarrow> unprintable v"
    by (rule normalizeYear_unprintable)
next
  fix ns v e
  assume "normalizeYear ns v = Inl e"
  then show "e = TypeError" by (rule normalizeYear_TypeError)
next
  fix ns v r
  assume "normalizeYear ns v = Inr r"
  then show "r = JNull \<or> (\<exists>n. r = int_val n) \<or> r = JNum PosInfinity \<or> r = JNum NegInfinity"
    by (rule normalizeYear_result)
next
  fix ns v r
  assume "normalizeYear ns v = Inr r"
  then show "normalizeYear ns r = Inr r" by (rule normalizeYear_idem)
next
  fix ns
  show "normalizeYear ns (JStr ''2023/05'') = Inr (int_val 2023)"
    by (rule normalizeYear_example)
next
  fix W st year y ds pubs p
  assume t: "truthy (fst (getCachedData W st))" and y: "parseInt year 10 = Some y"
    and d: "get_prop (fst (getCachedData W st)) ''dashboard_stats'' = Inr ds"
    and g: "get_prop (fst (getCachedData W st)) ''publications'' = Inr (JArr pubs)"
    and p: "p \<in> set pubs" "is_record p" "unprintable (year_of p)"
  from p(2,3) getPubYear_unprintable[of p "numberToString W"]
  obtain e where "getPubYear (numberToString W) p = Inl e" by blast
  from year_filter_bad_year[OF y g p(1) this]
  have "year_filter W (fst (getCachedData W st)) ds year = ([], Inl TypeError)" .
  from year_filter_raised[OF t y d this]
  show "loadDashboardData W st year =
          \<lparr>stored = st,
           trace = [ConsoleError ''Error filtering by year:'', UpdateDashboard ds],
           rejected = (\<not> updateDashboardReturns W ds)\<rparr>" by simp
qed (simp_all add: normalizeYear_def int_val_def Let_def)

theorem normalizeYear_rules_witness:
  "''2023/05'' \<noteq> [] \<and> CHR ''/'' \<in> set ''2023/05'' \<and>
   normalizeYear example_ns (JStr ''2023/05'') = Inr (int_val 2023) \<and>
   ''1999'' \<noteq> [] \<and> CHR ''/'' \<notin> set ''1999'' \<and>
   normalizeYear example_ns (JStr ''1999'') = Inr (int_val 1999) \<and>
   other_type (JBool True) \<and> normalizeYear example_ns (JBool True) = Inr JNull \<and>
   other_type (JArr [int_val 2023]) \<and>
   normalizeYear example_ns (JArr [int_val 2023]) = Inr (int_val 2023) \<and>
   \<bar>2023 :: int\<bar> < 2 ^ 53 \<and> nan_to_null (Some 2023) = int_val 2023 \<and>
   unprintable (JObj [(''toString'', JNull)]) \<and>
   normalizeYear example_ns (JObj [(''toString'', JNull)]) = Inl TypeError \<and>
   \<not> unprintable (JArr [int_val 2023]) \<and>
   normalizeYear example_ns (JNum (Fin (4047 / 2))) = Inr (int_val 2023) \<and>
   normalizeYear example_ns (int_val 2023) = Inr (int_val 2023) \<and>
   truthy (fst (getCachedData (cached_world bad_year_envelope) example_store)) \<and>
   parseInt ''2023'' 10 = Some 2023 \<and>
   get_prop (fst (getCachedData (cached_world bad_year_envelope) example_store))
     ''dashboard_stats'' = Inr example_stats \<and>
   get_prop (fst (getCachedData (cached_world bad_year_envelope) example_store))
     ''publications'' = Inr (JArr [bad_year_record]) \<and>
   bad_year_record \<in> set [bad_year_record] \<and> is_record bad_year_record \<and>
   unprintable (year_of bad_year_record) \<and>
   loadDashboardData (cached_world bad_year_envelope) example_store ''2023'' =
     \<lparr>stored = example_store,
      trace = [ConsoleError ''Error filtering by year:'', UpdateDashboard example_stats],
      rejected = False\<rparr>"
proof -
  note rules = normalizeYear_rules
  have a1: "''2023/05'' \<noteq> []" and a2: "CHR ''/'' \<in> set ''2023/05''" by simp_all
  from rules[THEN conjunct2, THEN conjunct2, THEN conjunct1, rule_format, OF a1 a2, of example_ns]
  have a: "normalizeYear example_ns (JStr ''2023/05'') = Inr (int_val 2023)"
    by (simp add: trim_def is_ws_def parseInt_10 digit_val_def nan_to_null_small)
  have b1: "''1999'' \<noteq> []" and b2: "CHR ''/'' \<notin> set ''1999''" by simp_all
  from rules[THEN conjunct2, THEN conjunct2, THEN conjunct2, THEN conjunct1,
      rule_format, OF b1 b2, of example_ns]
  have b: "normalizeYear example_ns (JStr ''1999'') = Inr (int_val 1999)"
    by (simp add: trim_def is_ws_def parseInt_10 digit_val_def nan_to_null_small)
  note other = rules[THEN conjunct2, THEN conjunct2, THEN conjunct2, THEN conjunct2,
      THEN conjunct1, rule_format]
  have c1: "other_type (JBool True)" by (simp add: other_type_def)
  from other[OF c1, of example_ns]
  have c: "normalizeYear example_ns (JBool True) = Inr JNull"
    by (simp add: is_ws_def parseInt_10 digit_val_def nan_to_null_small)
  have c2: "other_type (JArr [int_val 2023])" by (simp add: other_type_def)
  have c3: "to_string example_ns (JArr [int_val 2023]) = Inr ''2023''"
    by (simp add: int_val_def int_to_string_def nat_digits.simps digit_char_def)
  have c4: "normalizeYear example_ns (JArr [int_val 2023]) = Inr (int_val 2023)"
    unfolding other[OF c2, of example_ns] c3
    by (simp add: is_ws_def parseInt_10 digit_val_def nan_to_null_small)
  note rest = rules[THEN conjunct2, THEN conjunct2, THEN conjunct2, THEN conjunct2, THEN conjunct2]
  have s1: "\<bar>2023 :: int\<bar> < 2 ^ 53" by simp
  have s2: "nan_to_null (Some 2023) = int_val 2023"
    by (rule rest[THEN conjunct1, THEN conjunct2, THEN conjunct1, rule_format, OF s1])
  note rest2 = rest[THEN conjunct2]
  have d1: "unprintable (JObj [(''toString'', JNull)])" by simp
  from rest2[THEN conjunct1, rule_format, of example_ns "JObj [(''toString'', JNull)]"] d1
  obtain e where d2: "normalizeYear example_ns (JObj [(''toString'', JNull)]) = Inl e" by blast
  from rest2[THEN conjunct2, THEN conjunct1, rule_format, OF d2] d2
  have d: "normalizeYear example_ns (JObj [(''toString'', JNull)]) = Inl TypeError" by simp
  have d3: "\<not> unprintable (JArr [int_val 2023])" by (simp add: int_val_def)
  have f0: "\<lfloor>4047 / 2 :: rat\<rfloor> = 2023" by (simp add: floor_eq_iff)
  from rules[THEN conjunct2, THEN conjunct1, rule_format, of example_ns "4047 / 2"]
  have f: "normalizeYear example_ns (JNum (Fin (4047 / 2))) = Inr (int_val 2023)"
    by (simp add: f0)
  from rest2[THEN conjunct2, THEN conjunct2, THEN conjunct1, rule_format, OF f]
  have g: "normalizeYear example_ns (int_val 2023) = Inr (int_val 2023)" by simp
  note absorbed = rest2[THEN conjunct2, THEN conjunct2, THEN conjunct2, THEN conjunct2, rule_format]
  let ?W = "cached_world bad_year_envelope"
  have t: "truthy (fst (getCachedData ?W example_store))"
    by (simp add: cached_world_simps bad_year_envelope_def)
  have p: "parseInt ''2023'' 10 = Some 2023"
    by (simp add: parseInt_10 is_ws_def digit_val_def)
  have ds: "get_prop (fst (getCachedData ?W example_store)) ''dashboard_stats'' = Inr example_stats"
    by (simp add: cached_world_simps bad_year_envelope_def)
  have ps: "get_prop (fst (getCachedData ?W example_store)) ''publications'' =
              Inr (JArr [bad_year_record])"
    by (simp add: cached_world_simps bad_year_envelope_def)
  have m: "bad_year_record \<in> set [bad_year_record]" by simp
  have r: "is_record bad_year_record" by (simp add: bad_year_record_def is_record_def)
  have u: "unprintable (year_of bad_year_record)"
    by (simp add: bad_year_record_def year_of_def)
  from absorbed[OF t p ds ps m r u]
  have l: "loadDashboardData ?W example_store ''2023'' =
     \<lparr>stored = example_store,
      trace = [ConsoleError ''Error filtering by year:'', UpdateDashboard example_stats],
      rejected = False\<rparr>"
    by (simp add: cached_world_simps)
  show ?thesis by (intro conjI a1 a2 a b1 b2 b c1 c c2 c4 s1 s2 d1 d d3 f g t p ds ps m r u l)
qed

section \<open>Totality at the record interface\<close>




end
